theory Spec2Isabelle
  imports Main
begin

section \<open>Preprocessing tokens and macro definitions\<close>

text \<open>
  \<^verbatim>\<open>resources/zmk_defines.h\<close> is a header of four \<^verbatim>\<open>#define\<close> directives. What they mean
  is fixed by the C preprocessor, so the development has two layers: the directives, copied
  from the header as data, and macro replacement as the preprocessor performs it (ISO C,
  6.10.3), under which the directives are read.

  Text is a list of preprocessing tokens. White space and comments between tokens are not
  represented: the preprocessor keeps token boundaries, not layout. A string literal is one
  token, quotes included; \<^verbatim>\<open>#binding-cells\<close> is the four tokens \<^verbatim>\<open>#\<close>, \<^verbatim>\<open>binding\<close>,
  \<^verbatim>\<open>-\<close>, \<^verbatim>\<open>cells\<close>.
\<close>

type_synonym token = string

text \<open>
  A macro is object-like (a replacement list) or function-like (named parameters and a
  replacement list). Every function-like macro of the header ends its parameter list with
  \<^verbatim>\<open>...\<close>, so \<open>Function_like\<close> always stands for a variadic macro and lists only the
  parameters before the ellipsis.
\<close>

datatype macro_def =
    Object_like "token list"
  | Function_like "token list" "token list"

text \<open>Line 1: \<^verbatim>\<open>#define MACRO_PLACEHOLDER 0\<close>.\<close>

definition MACRO_PLACEHOLDER :: macro_def where
  \<open>MACRO_PLACEHOLDER = Object_like [''0'']\<close>

text \<open>
  Lines 2 to 7: \<^verbatim>\<open>#define ZMK_MACRO(name,...)\<close>. Each line but the last ends in a backslash, so
  the closing \<^verbatim>\<open>};\<close> belongs to the replacement list.
\<close>

definition ZMK_MACRO :: macro_def where
  \<open>ZMK_MACRO = Function_like [''name'']
     [''name'', '':'', ''name'', ''{'',
      ''compatible'', ''='', ''"zmk,behavior-macro"'', '';'',
      ''#'', ''binding'', ''-'', ''cells'', ''='', ''<'', ''0'', ''>'', '';'',
      ''__VA_ARGS__'',
      ''}'', '';'']\<close>

text \<open>Lines 9 to 14: \<^verbatim>\<open>#define ZMK_MACRO1(name,...)\<close>.\<close>

definition ZMK_MACRO1 :: macro_def where
  \<open>ZMK_MACRO1 = Function_like [''name'']
     [''name'', '':'', ''name'', ''{'',
      ''compatible'', ''='', ''"zmk,behavior-macro-one-param"'', '';'',
      ''#'', ''binding'', ''-'', ''cells'', ''='', ''<'', ''1'', ''>'', '';'',
      ''__VA_ARGS__'',
      ''}'', '';'']\<close>

text \<open>Lines 16 to 21: \<^verbatim>\<open>#define ZMK_MACRO2(name,...)\<close>.\<close>

definition ZMK_MACRO2 :: macro_def where
  \<open>ZMK_MACRO2 = Function_like [''name'']
     [''name'', '':'', ''name'', ''{'',
      ''compatible'', ''='', ''"zmk,behavior-macro-two-param"'', '';'',
      ''#'', ''binding'', ''-'', ''cells'', ''='', ''<'', ''2'', ''>'', '';'',
      ''__VA_ARGS__'',
      ''}'', '';'']\<close>

text \<open>The macro table the header leaves behind, in the order of its directives.\<close>

definition zmk_defines :: "(token \<times> macro_def) list" where
  "zmk_defines =
     [(''MACRO_PLACEHOLDER'', MACRO_PLACEHOLDER),
      (''ZMK_MACRO'', ZMK_MACRO),
      (''ZMK_MACRO1'', ZMK_MACRO1),
      (''ZMK_MACRO2'', ZMK_MACRO2)]"

definition lookup_macro :: "token \<Rightarrow> macro_def option" where
  "lookup_macro t = map_of zmk_defines t"

section \<open>Macro replacement\<close>

subsection \<open>The macros in force\<close>

text \<open>
  The header is never preprocessed alone: it is put in front of a keymap, and where one of
  its macros is invoked the preprocessor's predefined macros and the keymap's own
  definitions are in force as well. \<open>others\<close> stands for those: the table of all macros in
  force at the place of the invocation apart from the header's four. A predefined macro is
  in it with the value it has at that place, so the table differs from place to place:
  \<open>at_line l\<close> is the table in which nothing but \<^verbatim>\<open>__LINE__\<close> is defined, on line \<open>l\<close>.

  The table can hold what \<open>macro_def\<close> can express, object-like macros and variadic
  function-like ones without the operators \<^verbatim>\<open>#\<close> and \<^verbatim>\<open>##\<close>. Another kind of macro can stand
  in it under its name with any replacement list: the theorems below require that the text
  under study does not name it, and then what it would expand to plays no part.
\<close>

type_synonym macro_table = "token \<Rightarrow> macro_def option"

definition at_line :: "token \<Rightarrow> macro_table" where
  "at_line l = [''__LINE__'' \<mapsto> Object_like [l]]"

text \<open>Only an identifier can name a macro.\<close>

definition nondigit :: "char \<Rightarrow> bool" where
  "nondigit c = (c \<in> set ''ABCDEFGHIJKLMNOPQRSTUVWXYZabcdefghijklmnopqrstuvwxyz_'')"

definition digit :: "char \<Rightarrow> bool" where
  "digit c = (c \<in> set ''0123456789'')"

fun is_identifier :: "token \<Rightarrow> bool" where
  "is_identifier [] = False"
| "is_identifier (c # cs) = (nondigit c \<and> list_all (\<lambda>c. nondigit c \<or> digit c) cs)"

text \<open>
  \<open>in_force others\<close> is the table after the header's directives: its four definitions,
  and under every other name what \<open>others\<close> has.
\<close>

definition in_force :: "macro_table \<Rightarrow> macro_table" where
  "in_force others t = (if is_identifier t then (others ++ lookup_macro) t else None)"

subsection \<open>Tokens that remember their replacements\<close>

text \<open>
  A macro is not replaced inside its own replacement (ISO C, 6.10.3.4): a name found while
  the replacement list of that very macro is scanned again stays, and stays for good. Each
  token therefore carries the names of the macros whose replacement it has been part of,
  and is never replaced as one of those. Tokens of the source text carry none.
\<close>

type_synonym ptoken = "token \<times> token list"

definition source :: "token list \<Rightarrow> ptoken list" where
  "source ts = map (\<lambda>t. (t, [])) ts"

definition hide :: "token list \<Rightarrow> ptoken list \<Rightarrow> ptoken list" where
  "hide hs ts = map (\<lambda>(t, h). (t, hs @ h)) ts"

subsection \<open>Results\<close>

text \<open>
  The preprocessor rejects an invocation whose argument list does not close before the
  text ends, and one with fewer arguments than named parameters. \<open>Out_of_fuel\<close> is not a
  result of the preprocessor: \<open>expand\<close> below counts its steps down from a given number
  and gives \<open>Out_of_fuel\<close> when that was too small.
\<close>

datatype error = Unterminated_argument_list | Too_few_arguments

datatype 'a result = Out_of_fuel | Failed error | Text 'a

definition emit :: "'a \<Rightarrow> 'a list result \<Rightarrow> 'a list result" where
  "emit p r =
     (case r of Text ts \<Rightarrow> Text (p # ts) | Out_of_fuel \<Rightarrow> Out_of_fuel | Failed e \<Rightarrow> Failed e)"

fun collect :: "(token \<times> 'a result) list \<Rightarrow> (token \<times> 'a) list result" where
  "collect [] = Text []"
| "collect ((p, r) # rs) =
     (case r of
        Out_of_fuel \<Rightarrow> Out_of_fuel
      | Failed e \<Rightarrow> Failed e
      | Text a \<Rightarrow> emit (p, a) (collect rs))"

subsection \<open>Arguments\<close>

text \<open>
  \<open>take_arg split d ts\<close> reads one argument of an invocation from \<open>ts\<close>, the text after
  the opening parenthesis; \<open>d\<close> counts the parentheses that are open inside the argument.
  The argument ends at a closing parenthesis outside all nested ones or, when \<open>split\<close>
  holds, at a comma outside all nested ones; the result is the argument, the token that
  ended it and the text behind that token. The text running out first gives \<open>None\<close>.
\<close>

fun take_arg ::
  "bool \<Rightarrow> nat \<Rightarrow> ptoken list \<Rightarrow> (ptoken list \<times> ptoken \<times> ptoken list) option" where
  "take_arg split d [] = None"
| "take_arg split d (p # ps) =
     (if d = 0 \<and> fst p = '')'' then Some ([], p, ps)
      else if d = 0 \<and> split \<and> fst p = '','' then Some ([], p, ps)
      else map_option (\<lambda>(a, e, rest). (p # a, e, rest))
             (take_arg split
                (if fst p = ''('' then Suc d else if fst p = '')'' then d - 1 else d) ps))"

text \<open>
  \<open>bind_args ps ts\<close> pairs the named parameters \<open>ps\<close> with the arguments found in
  \<open>ts\<close> and \<^verbatim>\<open>__VA_ARGS__\<close> with everything after them, commas included, as one item.
  The variadic part may be left out altogether. With the bindings come the replacement
  memory of the closing parenthesis and the text behind it.
\<close>

fun bind_args ::
  "token list \<Rightarrow> ptoken list \<Rightarrow>
     error + ((token \<times> ptoken list) list \<times> token list \<times> ptoken list)" where
  "bind_args [] ts =
     (case take_arg False 0 ts of
        None \<Rightarrow> Inl Unterminated_argument_list
      | Some (va, e, rest) \<Rightarrow> Inr ([(''__VA_ARGS__'', va)], snd e, rest))"
| "bind_args (p # ps) ts =
     (case take_arg True 0 ts of
        None \<Rightarrow> Inl Unterminated_argument_list
      | Some (a, e, rest) \<Rightarrow>
          if fst e = '')''
          then (if ps = [] then Inr ([(p, a), (''__VA_ARGS__'', [])], snd e, rest)
                else Inl Too_few_arguments)
          else (case bind_args ps rest of
                  Inl err \<Rightarrow> Inl err
                | Inr (bs, h, rest') \<Rightarrow> Inr ((p, a) # bs, h, rest')))"

text \<open>
  Substitution into a replacement list: a token that is a parameter is replaced by what is
  bound to it, every other token stays. No replacement list of the header applies \<^verbatim>\<open>#\<close> to
  a parameter or uses \<^verbatim>\<open>##\<close>, so neither operator is modelled: the \<^verbatim>\<open>#\<close> of
  \<^verbatim>\<open>#binding-cells\<close> is followed by \<^verbatim>\<open>binding\<close> and stays as it is, which is what the
  preprocessors used on devicetree sources do.
\<close>

definition substitute :: "(token \<times> ptoken list) list \<Rightarrow> token list \<Rightarrow> ptoken list" where
  "substitute bs body =
     concat (map (\<lambda>t. case map_of bs t of Some a \<Rightarrow> a | None \<Rightarrow> [(t, [])]) body)"

subsection \<open>Expansion\<close>

text \<open>
  \<open>expand env n ts\<close> replaces the macros of the table \<open>env\<close> in the text \<open>ts\<close>, in at most
  \<open>n\<close> steps. At the first token \<open>t\<close>:

    \<^item> if \<open>t\<close> has been part of the replacement of the macro it names, or names no macro,
      it is final;
    \<^item> if \<open>t\<close> names an object-like macro, its replacement list takes its place and is
      scanned again together with the text behind it;
    \<^item> if \<open>t\<close> names a function-like macro and \<^verbatim>\<open>(\<close> follows, this is an invocation. The
      arguments are collected. Each argument whose parameter occurs in the replacement
      list is macro-expanded on its own, as if it were the whole text. The results are
      substituted for the parameters, and the outcome is scanned again together with the
      text behind the invocation;
    \<^item> if \<open>t\<close> names a function-like macro and no \<^verbatim>\<open>(\<close> follows, it is final. It may still
      be replaced later, when it has become part of a replacement that is scanned again
      and a \<^verbatim>\<open>(\<close> has come to stand behind it.

  A replacement remembers the macro it replaced, and what the name of that macro
  remembered; for an invocation, only what the name and the closing parenthesis both
  remembered.
\<close>

fun expand :: "macro_table \<Rightarrow> nat \<Rightarrow> ptoken list \<Rightarrow> ptoken list result" where
  "expand env 0 ts = Out_of_fuel"
| "expand env (Suc n) [] = Text []"
| "expand env (Suc n) ((t, h) # ts) =
     (if t \<in> set h then emit (t, h) (expand env n ts)
      else
        (case env t of
           None \<Rightarrow> emit (t, h) (expand env n ts)
         | Some (Object_like body) \<Rightarrow> expand env n (hide (t # h) (source body) @ ts)
         | Some (Function_like ps body) \<Rightarrow>
             (case ts of
                [] \<Rightarrow> emit (t, h) (expand env n ts)
              | u # us \<Rightarrow>
                  if fst u = ''('' then
                    (case bind_args ps us of
                       Inl e \<Rightarrow> Failed e
                     | Inr (bs, h', rest) \<Rightarrow>
                         (case collect (map (\<lambda>(p, a). (p, expand env n a))
                                  (filter (\<lambda>(p, a). p \<in> set body) bs)) of
                            Out_of_fuel \<Rightarrow> Out_of_fuel
                          | Failed e \<Rightarrow> Failed e
                          | Text bs' \<Rightarrow>
                              expand env n
                                (hide (t # filter (\<lambda>x. x \<in> set h') h) (substitute bs' body) @
                                 rest)))
                  else emit (t, h) (expand env n ts))))"

text \<open>
  \<open>preprocess others n src\<close>: the source text \<open>src\<close>, read where the header's macros and
  \<open>others\<close> are in force, after macro replacement in at most \<open>n\<close> steps.
\<close>

definition preprocess :: "macro_table \<Rightarrow> nat \<Rightarrow> token list \<Rightarrow> token list result" where
  "preprocess others n src =
     (case expand (in_force others) n (source src) of
        Text ts \<Rightarrow> Text (map fst ts)
      | Out_of_fuel \<Rightarrow> Out_of_fuel
      | Failed e \<Rightarrow> Failed e)"

subsection \<open>Invocations of the header's macros\<close>

text \<open>The source text \<^verbatim>\<open>m(name, va)\<close> of an invocation.\<close>

definition invocation :: "token \<Rightarrow> token list \<Rightarrow> token list \<Rightarrow> token list" where
  "invocation m name va = m # ''('' # name @ '','' # va @ ['')'']"

text \<open>
  \<open>arg_ok split d ts\<close>: scanned from depth \<open>d\<close>, the text \<open>ts\<close> closes every parenthesis
  it opens or finds open and never ends the argument early. \<open>arg_ok True 0\<close> is what makes
  text one argument (balanced, no comma outside parentheses), \<open>arg_ok False 0\<close> what makes
  it variadic text (balanced).
\<close>

fun arg_ok :: "bool \<Rightarrow> nat \<Rightarrow> token list \<Rightarrow> bool" where
  "arg_ok split d [] = (d = 0)"
| "arg_ok split d (t # ts) =
     (\<not> (d = 0 \<and> t = '')'') \<and> \<not> (d = 0 \<and> split \<and> t = '','') \<and>
      arg_ok split (if t = ''('' then Suc d else if t = '')'' then d - 1 else d) ts)"

text \<open>
  Text in which \<^verbatim>\<open>MACRO_PLACEHOLDER\<close> is the only macro in force that is named, and that
  text with each \<^verbatim>\<open>MACRO_PLACEHOLDER\<close> replaced by \<^verbatim>\<open>0\<close>.
\<close>

definition names_only_placeholder :: "macro_table \<Rightarrow> token list \<Rightarrow> bool" where
  "names_only_placeholder others ts =
     list_all (\<lambda>t. in_force others t = None \<or> t = ''MACRO_PLACEHOLDER'') ts"

definition placeholder_replaced :: "token list \<Rightarrow> token list" where
  "placeholder_replaced ts = map (\<lambda>t. if t = ''MACRO_PLACEHOLDER'' then ''0'' else t) ts"

text \<open>
  The words that the replacement lists of the header spell out, parameters aside, name no
  macro in force. Of these words only \<^verbatim>\<open>compatible\<close>, \<^verbatim>\<open>binding\<close> and \<^verbatim>\<open>cells\<close> are identifiers
  (lemma \<open>template_words_free_iff\<close>).
\<close>

definition replacement :: "macro_def \<Rightarrow> token list" where
  "replacement d = (case d of Object_like body \<Rightarrow> body | Function_like ps body \<Rightarrow> body)"

definition parameters :: "macro_def \<Rightarrow> token list" where
  "parameters d =
     (case d of Object_like body \<Rightarrow> [] | Function_like ps body \<Rightarrow> ps @ [''__VA_ARGS__''])"

definition template_words_free :: "macro_table \<Rightarrow> bool" where
  "template_words_free others =
     list_all (\<lambda>(m, d). list_all (\<lambda>t. t \<in> set (parameters d) \<or> in_force others t = None)
                          (replacement d)) zmk_defines"

text \<open>
  An argument after macro expansion, in the case that \<^verbatim>\<open>MACRO_PLACEHOLDER\<close> is the only
  macro it names: each \<^verbatim>\<open>0\<close> that took the place of a \<^verbatim>\<open>MACRO_PLACEHOLDER\<close> remembers it.
\<close>

definition argument_expanded :: "token list \<Rightarrow> ptoken list" where
  "argument_expanded ts =
     map (\<lambda>t. if t = ''MACRO_PLACEHOLDER'' then (''0'', [''MACRO_PLACEHOLDER'']) else (t, [])) ts"

text \<open>
  \<open>node m name va\<close>: the replacement list of the header's function-like macro \<open>m\<close> with
  \<open>name\<close> in the place of each \<^verbatim>\<open>name\<close> and \<open>va\<close> in the place of \<^verbatim>\<open>__VA_ARGS__\<close>.
\<close>

definition fill_in :: "token list \<Rightarrow> token list \<Rightarrow> token list \<Rightarrow> token list" where
  "fill_in body name va =
     concat (map (\<lambda>t. if t = ''name'' then name else if t = ''__VA_ARGS__'' then va else [t]) body)"

definition node :: "token \<Rightarrow> token list \<Rightarrow> token list \<Rightarrow> token list" where
  "node m name va =
     (case lookup_macro m of Some (Function_like ps body) \<Rightarrow> fill_in body name va | _ \<Rightarrow> [])"

text \<open>
  An invocation of one of the three function-like macros, as it stands in a source file,
  whose arguments name no macro in force but \<^verbatim>\<open>MACRO_PLACEHOLDER\<close>: the macro's name, one
  argument for \<^verbatim>\<open>name\<close>, and variadic text.
\<close>

definition zmk_invocation :: "macro_table \<Rightarrow> token \<times> token list \<times> token list \<Rightarrow> bool" where
  "zmk_invocation others c =
     (case c of (m, name, va) \<Rightarrow>
        (m = ''ZMK_MACRO'' \<or> m = ''ZMK_MACRO1'' \<or> m = ''ZMK_MACRO2'') \<and>
        arg_ok True 0 name \<and> arg_ok False 0 va \<and>
        names_only_placeholder others name \<and> names_only_placeholder others va)"

subsection \<open>Nodes\<close>


fun closes :: "nat \<Rightarrow> token list \<Rightarrow> bool" where
  "closes d [] = False"
| "closes d (t # ts) =
     (if t = ''}'' then (if d = 0 then ts = ['';''] else closes (d - 1) ts)
      else if t = ''{'' then closes (Suc d) ts
      else closes d ts)"


definition labelled_node :: "token list \<Rightarrow> bool" where
  "labelled_node ts =
     (case ts of
        l # c # n # b # tail \<Rightarrow>
          is_identifier l \<and> c = '':'' \<and> n = l \<and> b = ''{'' \<and> closes 0 tail
      | _ \<Rightarrow> False)"

section \<open>Facts about the table\<close>

lemma lookup_MACRO_PLACEHOLDER:
  \<open>lookup_macro ''MACRO_PLACEHOLDER'' = Some MACRO_PLACEHOLDER\<close>
  by (simp add: lookup_macro_def zmk_defines_def)

lemma lookup_ZMK_MACRO: \<open>lookup_macro ''ZMK_MACRO'' = Some ZMK_MACRO\<close>
  by (simp add: lookup_macro_def zmk_defines_def)

lemma lookup_ZMK_MACRO1: \<open>lookup_macro ''ZMK_MACRO1'' = Some ZMK_MACRO1\<close>
  by (simp add: lookup_macro_def zmk_defines_def)

lemma lookup_ZMK_MACRO2: \<open>lookup_macro ''ZMK_MACRO2'' = Some ZMK_MACRO2\<close>
  by (simp add: lookup_macro_def zmk_defines_def)

lemma in_force_header:
  \<open>in_force others ''MACRO_PLACEHOLDER'' = Some MACRO_PLACEHOLDER\<close>
  \<open>in_force others ''ZMK_MACRO'' = Some ZMK_MACRO\<close>
  \<open>in_force others ''ZMK_MACRO1'' = Some ZMK_MACRO1\<close>
  \<open>in_force others ''ZMK_MACRO2'' = Some ZMK_MACRO2\<close>
  by (simp_all add: in_force_def nondigit_def digit_def map_add_def
      lookup_MACRO_PLACEHOLDER lookup_ZMK_MACRO lookup_ZMK_MACRO1 lookup_ZMK_MACRO2)

lemma in_force_not_identifier: "\<not> is_identifier t \<Longrightarrow> in_force others t = None"
  by (simp add: in_force_def)

lemma in_force_other:
  "t \<notin> {''MACRO_PLACEHOLDER'', ''ZMK_MACRO'', ''ZMK_MACRO1'', ''ZMK_MACRO2''} \<Longrightarrow>
     in_force others t = (if is_identifier t then others t else None)"
  by (simp add: in_force_def map_add_def lookup_macro_def zmk_defines_def)

lemma template_words_free_iff:
  "template_words_free others \<longleftrightarrow>
     others ''compatible'' = None \<and> others ''binding'' = None \<and> others ''cells'' = None"
  by (simp add: template_words_free_def zmk_defines_def replacement_def parameters_def
      MACRO_PLACEHOLDER_def ZMK_MACRO_def ZMK_MACRO1_def ZMK_MACRO2_def
      in_force_other nondigit_def digit_def)

section \<open>Facts about expansion\<close>

text \<open>
  Text whose tokens are all final is passed on as it is; an argument that names no macro in
  force but \<^verbatim>\<open>MACRO_PLACEHOLDER\<close> expands to itself with \<^verbatim>\<open>0\<close> in the place of each
  \<^verbatim>\<open>MACRO_PLACEHOLDER\<close>; and the arguments of \<^verbatim>\<open>m(name, va)\<close> are found as \<open>name\<close> and \<open>va\<close>
  when these are well-formed.
\<close>

lemma foldr_emit_Text: "foldr emit A (Text ts) = Text (A @ ts)"
  by (induction A) (simp_all add: emit_def)

lemma expand_final:
  assumes "\<forall>(t, h) \<in> set A. t \<in> set h \<or> env t = None"
  shows "expand env (length A + k) (A @ rest) = foldr emit A (expand env k rest)"
  using assms
proof (induction A)
  case Nil
  then show ?case by simp
next
  case (Cons p A)
  obtain t h where p: "p = (t, h)"
    by (cases p)
  from Cons.prems p have final: "t \<in> set h \<or> env t = None"
    and rest: "\<forall>(t, h) \<in> set A. t \<in> set h \<or> env t = None"
    by simp_all
  have "expand env (Suc (length A + k)) ((t, h) # A @ rest) =
      emit (t, h) (expand env (length A + k) (A @ rest))"
    using final by auto
  then show ?case
    by (simp add: p Cons.IH [OF rest])
qed

lemma expand_argument:
  assumes "list_all (\<lambda>t. env t = None \<or> t = ''MACRO_PLACEHOLDER'') ts"
    and "env ''MACRO_PLACEHOLDER'' = Some (Object_like [''0''])"
    and "env ''0'' = None"
    and "2 * length ts < n"
  shows "expand env n (source ts) =
           Text (map (\<lambda>t. if t = ''MACRO_PLACEHOLDER'' then (''0'', [''MACRO_PLACEHOLDER''])
                           else (t, [])) ts)"
  using assms(1,4)
proof (induction ts arbitrary: n)
  case Nil
  then obtain k where "n = Suc k"
    by (cases n) auto
  then show ?case
    by (simp add: source_def)
next
  case (Cons t ts)
  from Cons.prems obtain k where n: "n = Suc (Suc k)" and k: "2 * length ts < k"
    by (cases n; cases "n - 1") auto
  from Cons.prems have ts: "list_all (\<lambda>t. env t = None \<or> t = ''MACRO_PLACEHOLDER'') ts"
    by simp
  show ?case
  proof (cases "t = ''MACRO_PLACEHOLDER''")
    case True
    have "expand env n (source (t # ts)) =
        expand env (Suc k) ((''0'', [''MACRO_PLACEHOLDER'']) # source ts)"
      by (simp add: n True source_def hide_def assms(2))
    also have "\<dots> = emit (''0'', [''MACRO_PLACEHOLDER'']) (expand env k (source ts))"
      by (simp add: assms(3))
    finally show ?thesis
      by (simp add: Cons.IH [OF ts k] emit_def True)
  next
    case False
    with Cons.prems have "env t = None"
      by simp
    then have "expand env n (source (t # ts)) = emit (t, []) (expand env (Suc k) (source ts))"
      by (simp add: n source_def)
    moreover from k have "2 * length ts < Suc k"
      by simp
    ultimately show ?thesis
      by (simp add: Cons.IH [OF ts] emit_def False)
  qed
qed

lemma take_arg_append:
  "arg_ok split d (map fst a) \<Longrightarrow>
     take_arg split d (a @ rest) =
       map_option (\<lambda>(b, e, r). (a @ b, e, r)) (take_arg split 0 rest)"
proof (induction a arbitrary: d)
  case Nil
  then show ?case
    by (simp add: option.map_ident split_def)
next
  case (Cons p a)
  let ?d = "if fst p = ''('' then Suc d else if fst p = '')'' then d - 1 else d"
  from Cons.prems
  have stop: "\<not> (d = 0 \<and> fst p = '')'')" "\<not> (d = 0 \<and> split \<and> fst p = '','')"
    and ok: "arg_ok split ?d (map fst a)"
    by simp_all
  have "take_arg split d ((p # a) @ rest) =
      map_option (\<lambda>(b, e, r). (p # b, e, r)) (take_arg split ?d (a @ rest))"
    using stop by auto
  also have "\<dots> = map_option (\<lambda>(b, e, r). ((p # a) @ b, e, r)) (take_arg split 0 rest)"
    by (simp add: Cons.IH [OF ok] option.map_comp comp_def split_def)
  finally show ?case .
qed

lemma map_fst_source: "map fst (source ts) = ts"
  by (simp add: source_def comp_def)

lemma source_append: "source (xs @ ys) = source xs @ source ys"
  by (simp add: source_def)

lemma source_Cons: "source (x # xs) = (x, []) # source xs"
  by (simp add: source_def)

lemma source_Nil: "source [] = []"
  by (simp add: source_def)

lemma bind_args_invocation:
  assumes "arg_ok True 0 name" and "arg_ok False 0 va"
  shows "bind_args [p] (source (name @ '','' # va @ ['')'']) @ rest) =
           Inr ([(p, source name), (''__VA_ARGS__'', source va)], [], rest)"
  using assms
  by (simp add: source_append source_Cons source_Nil take_arg_append map_fst_source)

lemma bind_args_no_variadic:
  assumes "arg_ok True 0 name"
  shows "bind_args [p] (source (name @ ['')'']) @ rest) =
           Inr ([(p, source name), (''__VA_ARGS__'', [])], [], rest)"
  using assms
  by (simp add: source_append source_Cons source_Nil take_arg_append map_fst_source)

text \<open>
  One invocation of a macro with the one parameter \<^verbatim>\<open>name\<close>, whose replacement list names
  no macro in force: the invocation is replaced by the filled-in replacement list, all of
  whose tokens are then final, and expansion goes on behind it.
\<close>

lemma map_fst_argument_expanded: "map fst (argument_expanded ts) = placeholder_replaced ts"
  by (simp add: argument_expanded_def placeholder_replaced_def)

lemma length_argument_expanded: "length (argument_expanded ts) = length ts"
  by (simp add: argument_expanded_def)

lemma argument_expanded_final:
  assumes "list_all (\<lambda>t. env t = None \<or> t = ''MACRO_PLACEHOLDER'') ts" and "env ''0'' = None"
  shows "\<forall>(t, h) \<in> set (argument_expanded ts). env t = None"
  using assms by (auto simp add: argument_expanded_def list_all_iff)

lemma expand_invocation:
  assumes m: "env m = Some (Function_like [''name''] body)"
    and bind: "bind_args [''name''] us =
        Inr ([(''name'', source name), (''__VA_ARGS__'', source va)], [], rest)"
    and occurs: "''name'' \<in> set body" "''__VA_ARGS__'' \<in> set body"
    and body: "\<forall>t \<in> set body. t = ''name'' \<or> t = ''__VA_ARGS__'' \<or> env t = None"
    and name: "list_all (\<lambda>t. env t = None \<or> t = ''MACRO_PLACEHOLDER'') name"
    and va: "list_all (\<lambda>t. env t = None \<or> t = ''MACRO_PLACEHOLDER'') va"
    and ph: "env ''MACRO_PLACEHOLDER'' = Some (Object_like [''0''])" "env ''0'' = None"
    and R: "R = hide [m] (substitute [(''name'', argument_expanded name),
                                      (''__VA_ARGS__'', argument_expanded va)] body)"
    and fuel: "2 * length name < length R + k" "2 * length va < length R + k"
  shows "expand env (Suc (length R + k)) ((m, []) # (''('', []) # us) =
           foldr emit R (expand env k rest)"
proof -
  let ?n = "length R + k"
  have pre_name: "expand env ?n (source name) = Text (argument_expanded name)"
    using expand_argument [OF name ph fuel(1)] by (simp add: argument_expanded_def)
  have pre_va: "expand env ?n (source va) = Text (argument_expanded va)"
    using expand_argument [OF va ph fuel(2)] by (simp add: argument_expanded_def)
  have step: "expand env (Suc ?n) ((m, []) # (''('', []) # us) = expand env ?n (R @ rest)"
    using pre_name pre_va unfolding R
    by (simp add: m bind occurs emit_def del: bind_args.simps)
  have final: "\<forall>(t, h) \<in> set R. t \<in> set h \<or> env t = None"
  proof -
    let ?bs = "[(''name'', argument_expanded name), (''__VA_ARGS__'', argument_expanded va)]"
    have "env t = None" if "(t, h) \<in> set (substitute ?bs body)" for t h
    proof -
      from that obtain b where b: "b \<in> set body"
        and mem: "(t, h) \<in> set (case map_of ?bs b of Some a \<Rightarrow> a | None \<Rightarrow> [(b, [])])"
        unfolding substitute_def by auto
      consider "b = ''name''" | "b = ''__VA_ARGS__''" | "b \<noteq> ''name''" "b \<noteq> ''__VA_ARGS__''"
        by auto
      then show ?thesis
      proof cases
        case 1
        with mem have "(t, h) \<in> set (argument_expanded name)"
          by simp
        with argument_expanded_final [OF name ph(2)] show ?thesis
          by auto
      next
        case 2
        with mem have "(t, h) \<in> set (argument_expanded va)"
          by simp
        with argument_expanded_final [OF va ph(2)] show ?thesis
          by auto
      next
        case 3
        with mem have "t = b"
          by simp
        with 3 b body show ?thesis
          by auto
      qed
    qed
    then show ?thesis
      unfolding R hide_def by auto
  qed
  show ?thesis
    using step expand_final [OF final, of k rest] by simp
qed

lemma map_fst_hide: "map fst (hide hs ts) = map fst ts"
  by (simp add: hide_def comp_def split_def)

lemma length_hide: "length (hide hs ts) = length ts"
  by (simp add: hide_def)

lemma map_fst_substitute:
  "map fst (substitute [(''name'', a), (''__VA_ARGS__'', b)] body) =
     fill_in body (map fst a) (map fst b)"
  by (induction body) (simp_all add: substitute_def fill_in_def)

lemma in_force_0: "in_force others ''0'' = None"
  by (simp add: in_force_def nondigit_def)

lemma node_ZMK_MACRO:
  \<open>node ''ZMK_MACRO'' name va =
     name @ '':'' # name @
       [''{'',
        ''compatible'', ''='', ''"zmk,behavior-macro"'', '';'',
        ''#'', ''binding'', ''-'', ''cells'', ''='', ''<'', ''0'', ''>'', '';''] @
       va @ [''}'', '';'']\<close>
  by (simp add: node_def lookup_ZMK_MACRO ZMK_MACRO_def fill_in_def)

lemma node_ZMK_MACRO1:
  \<open>node ''ZMK_MACRO1'' name va =
     name @ '':'' # name @
       [''{'',
        ''compatible'', ''='', ''"zmk,behavior-macro-one-param"'', '';'',
        ''#'', ''binding'', ''-'', ''cells'', ''='', ''<'', ''1'', ''>'', '';''] @
       va @ [''}'', '';'']\<close>
  by (simp add: node_def lookup_ZMK_MACRO1 ZMK_MACRO1_def fill_in_def)

lemma node_ZMK_MACRO2:
  \<open>node ''ZMK_MACRO2'' name va =
     name @ '':'' # name @
       [''{'',
        ''compatible'', ''='', ''"zmk,behavior-macro-two-param"'', '';'',
        ''#'', ''binding'', ''-'', ''cells'', ''='', ''<'', ''2'', ''>'', '';''] @
       va @ [''}'', '';'']\<close>
  by (simp add: node_def lookup_ZMK_MACRO2 ZMK_MACRO2_def fill_in_def)

lemma length_node:
  assumes "m = ''ZMK_MACRO'' \<or> m = ''ZMK_MACRO1'' \<or> m = ''ZMK_MACRO2''"
  shows "length (node m name va) = 2 * length name + length va + 17"
  using assms by (auto simp add: node_ZMK_MACRO node_ZMK_MACRO1 node_ZMK_MACRO2)

text \<open>What the table and the assumption on the template's words give for one macro.\<close>

lemma zmk_macro_in_force:
  assumes "m = ''ZMK_MACRO'' \<or> m = ''ZMK_MACRO1'' \<or> m = ''ZMK_MACRO2''"
    and "template_words_free others"
  obtains body where "lookup_macro m = Some (Function_like [''name''] body)"
    and "in_force others m = Some (Function_like [''name''] body)"
    and "''name'' \<in> set body" and "''__VA_ARGS__'' \<in> set body"
    and "\<forall>t \<in> set body. t = ''name'' \<or> t = ''__VA_ARGS__'' \<or> in_force others t = None"
proof -
  from assms(2) have words:
    "others ''compatible'' = None" "others ''binding'' = None" "others ''cells'' = None"
    by (simp_all add: template_words_free_iff)
  from assms(1) consider "m = ''ZMK_MACRO''" | "m = ''ZMK_MACRO1''" | "m = ''ZMK_MACRO2''"
    by auto
  then show thesis
  proof cases
    case 1
    show thesis
      by (rule that [of "replacement ZMK_MACRO"])
        (simp_all add: 1 lookup_ZMK_MACRO in_force_header ZMK_MACRO_def replacement_def
          in_force_other words nondigit_def digit_def)
  next
    case 2
    show thesis
      by (rule that [of "replacement ZMK_MACRO1"])
        (simp_all add: 2 lookup_ZMK_MACRO1 in_force_header ZMK_MACRO1_def replacement_def
          in_force_other words nondigit_def digit_def)
  next
    case 3
    show thesis
      by (rule that [of "replacement ZMK_MACRO2"])
        (simp_all add: 3 lookup_ZMK_MACRO2 in_force_header ZMK_MACRO2_def replacement_def
          in_force_other words nondigit_def digit_def)
  qed
qed

text \<open>
  A text made of invocations of the three macros expands to their nodes, one after the
  other. The number of steps needed is bounded by six times the length of the text.
\<close>

lemma zmk_step:
  assumes m: "m = ''ZMK_MACRO'' \<or> m = ''ZMK_MACRO1'' \<or> m = ''ZMK_MACRO2''"
    and words: "template_words_free others"
    and name: "names_only_placeholder others name"
    and va: "names_only_placeholder others va"
    and bind: "bind_args [''name''] us =
        Inr ([(''name'', source name), (''__VA_ARGS__'', source va)], [], rest)"
    and fuel: "length va < 2 * length name + 17 + k"
  shows "\<exists>R. map fst R = node m (placeholder_replaced name) (placeholder_replaced va) \<and>
             expand (in_force others) (Suc (2 * length name + length va + 17 + k))
               ((m, []) # (''('', []) # us) =
             foldr emit R (expand (in_force others) k rest)"
proof -
  from zmk_macro_in_force [OF m words] obtain body
    where look: "lookup_macro m = Some (Function_like [''name''] body)"
      and force: "in_force others m = Some (Function_like [''name''] body)"
      and occurs: "''name'' \<in> set body" "''__VA_ARGS__'' \<in> set body"
      and inert: "\<forall>t \<in> set body. t = ''name'' \<or> t = ''__VA_ARGS__'' \<or> in_force others t = None"
    by blast
  define R where "R = hide [m] (substitute [(''name'', argument_expanded name),
                                            (''__VA_ARGS__'', argument_expanded va)] body)"
  have shape: "map fst R = node m (placeholder_replaced name) (placeholder_replaced va)"
    by (simp add: R_def map_fst_hide map_fst_substitute map_fst_argument_expanded node_def look)
  from shape have "length (map fst R) = 2 * length name + length va + 17"
    using length_node [OF m] by (simp add: placeholder_replaced_def)
  then have len: "length R = 2 * length name + length va + 17"
    by simp
  have ph: "in_force others ''MACRO_PLACEHOLDER'' = Some (Object_like [''0''])"
    by (simp add: in_force_header MACRO_PLACEHOLDER_def)
  from name have name': "list_all (\<lambda>t. in_force others t = None \<or> t = ''MACRO_PLACEHOLDER'') name"
    by (simp add: names_only_placeholder_def)
  from va have va': "list_all (\<lambda>t. in_force others t = None \<or> t = ''MACRO_PLACEHOLDER'') va"
    by (simp add: names_only_placeholder_def)
  from fuel have f1: "2 * length name < length R + k" and f2: "2 * length va < length R + k"
    by (simp_all add: len)
  have "expand (in_force others) (Suc (length R + k)) ((m, []) # (''('', []) # us) =
      foldr emit R (expand (in_force others) k rest)"
    by (rule expand_invocation [OF force bind occurs inert name' va' ph in_force_0 R_def f1 f2])
  with shape len show ?thesis
    by auto
qed

lemma expand_invocations:
  assumes words: "template_words_free others"
    and calls: "list_all (zmk_invocation others) calls"
    and fuel: "6 * length (concat (map (\<lambda>(m, name, va). invocation m name va) calls)) < n"
  shows "\<exists>out. expand (in_force others) n
                 (source (concat (map (\<lambda>(m, name, va). invocation m name va) calls))) = Text out \<and>
               map fst out =
                 concat (map (\<lambda>(m, name, va).
                   node m (placeholder_replaced name) (placeholder_replaced va)) calls)"
  using calls fuel
proof (induction calls arbitrary: n)
  case Nil
  then obtain k where "n = Suc k"
    by (cases n) auto
  then show ?case
    by (simp add: source_def)
next
  case (Cons c calls)
  let ?rest = "concat (map (\<lambda>(m, name, va). invocation m name va) calls)"
  obtain m name va where c: "c = (m, name, va)"
    by (cases c) auto
  from Cons.prems(1) c have wf: "zmk_invocation others (m, name, va)"
    and wfs: "list_all (zmk_invocation others) calls"
    by simp_all
  from wf have m: "m = ''ZMK_MACRO'' \<or> m = ''ZMK_MACRO1'' \<or> m = ''ZMK_MACRO2''"
    and ok: "arg_ok True 0 name" "arg_ok False 0 va"
    and only: "names_only_placeholder others name" "names_only_placeholder others va"
    by (simp_all add: zmk_invocation_def)
  from Cons.prems(2) c have n: "6 * (length name + length va + 4) + 6 * length ?rest < n"
    by (simp add: invocation_def)
  define k where "k = n - (2 * length name + length va + 18)"
  from n have n_eq: "n = Suc (2 * length name + length va + 17 + k)"
    and k_va: "length va < 2 * length name + 17 + k"
    and k_rest: "6 * length ?rest < k"
    by (simp_all add: k_def)
  from zmk_step [OF m words only bind_args_invocation [OF ok] k_va] obtain R
    where R: "map fst R = node m (placeholder_replaced name) (placeholder_replaced va)"
      and step: "expand (in_force others) (Suc (2 * length name + length va + 17 + k))
                   ((m, []) # (''('', []) # source (name @ '','' # va @ ['')'']) @ source ?rest) =
                 foldr emit R (expand (in_force others) k (source ?rest))"
    by blast
  from Cons.IH [OF wfs k_rest] obtain out
    where out: "expand (in_force others) k (source ?rest) = Text out"
      and shape: "map fst out =
        concat (map (\<lambda>(m, name, va).
          node m (placeholder_replaced name) (placeholder_replaced va)) calls)"
    by blast
  have "source (concat (map (\<lambda>(m, name, va). invocation m name va) (c # calls))) =
      (m, []) # (''('', []) # source (name @ '','' # va @ ['')'']) @ source ?rest"
    by (simp add: c invocation_def source_def)
  then have "expand (in_force others) n
      (source (concat (map (\<lambda>(m, name, va). invocation m name va) (c # calls)))) = Text (R @ out)"
    using step out by (simp add: n_eq foldr_emit_Text)
  moreover have "map fst (R @ out) =
      concat (map (\<lambda>(m, name, va).
        node m (placeholder_replaced name) (placeholder_replaced va)) (c # calls))"
    by (simp add: R shape c)
  ultimately show ?case
    by blast
qed

lemma preprocess_invocations:
  assumes "template_words_free others"
    and "list_all (zmk_invocation others) calls"
    and "6 * length (concat (map (\<lambda>(m, name, va). invocation m name va) calls)) < n"
  shows "preprocess others n (concat (map (\<lambda>(m, name, va). invocation m name va) calls)) =
           Text (concat (map (\<lambda>(m, name, va).
             node m (placeholder_replaced name) (placeholder_replaced va)) calls))"
  using expand_invocations [OF assms] by (auto simp add: preprocess_def)

lemma preprocess_invocation:
  assumes "template_words_free others"
    and "zmk_invocation others (m, name, va)"
    and "6 * length (invocation m name va) < n"
  shows "preprocess others n (invocation m name va) =
           Text (node m (placeholder_replaced name) (placeholder_replaced va))"
  using preprocess_invocations [of others "[(m, name, va)]" n] assms by simp

lemma preprocess_invocation_no_variadic:
  assumes words: "template_words_free others"
    and m: "m = ''ZMK_MACRO'' \<or> m = ''ZMK_MACRO1'' \<or> m = ''ZMK_MACRO2''"
    and ok: "arg_ok True 0 name"
    and only: "names_only_placeholder others name"
    and fuel: "6 * length (m # ''('' # name @ ['')'']) < n"
  shows "preprocess others n (m # ''('' # name @ ['')'']) =
           Text (node m (placeholder_replaced name) [])"
proof -
  define k where "k = n - (2 * length name + 18)"
  from fuel have n_eq: "n = Suc (2 * length name + length ([] :: token list) + 17 + k)"
    and k_va: "length ([] :: token list) < 2 * length name + 17 + k" and k: "0 < k"
    by (simp_all add: k_def)
  have empty: "names_only_placeholder others []"
    by (simp add: names_only_placeholder_def)
  have bind: "bind_args [''name''] (source (name @ ['')'']) @ []) =
      Inr ([(''name'', source name), (''__VA_ARGS__'', source [])], [], [])"
    using bind_args_no_variadic [OF ok, of "''name''" "[]"] by (simp add: source_def)
  from zmk_step [OF m words only empty bind k_va] obtain R
    where R: "map fst R = node m (placeholder_replaced name) (placeholder_replaced [])"
      and step: "expand (in_force others) (Suc (2 * length name + length ([] :: token list) + 17 + k))
                   ((m, []) # (''('', []) # source (name @ ['')'']) @ []) =
                 foldr emit R (expand (in_force others) k [])"
    by blast
  from k obtain k' where "k = Suc k'"
    by (cases k) auto
  then have "expand (in_force others) k [] = Text []"
    by simp
  with step have "expand (in_force others) n (source (m # ''('' # name @ ['')''])) = Text R"
    by (simp add: n_eq foldr_emit_Text source_def)
  then show ?thesis
    by (simp add: preprocess_def R placeholder_replaced_def)
qed

section \<open>More steps do not change a result\<close>

text \<open>
  Once \<open>expand\<close> has reached a text or a failure, it gives the same with every larger number
  of steps: the number of steps is a bound on the work and not part of the result.
\<close>

lemma emit_fuel: "emit p r \<noteq> Out_of_fuel \<Longrightarrow> r \<noteq> Out_of_fuel"
  by (cases r) (simp_all add: emit_def)

lemma collect_more_fuel:
  assumes "\<And>a. f a \<noteq> Out_of_fuel \<Longrightarrow> g a = f a"
    and "collect (map (\<lambda>(p, a). (p, f a)) xs) \<noteq> Out_of_fuel"
  shows "collect (map (\<lambda>(p, a). (p, g a)) xs) = collect (map (\<lambda>(p, a). (p, f a)) xs)"
  using assms(2)
proof (induction xs)
  case Nil
  then show ?case by simp
next
  case (Cons x xs)
  obtain p a where x: "x = (p, a)"
    by (cases x)
  show ?case
  proof (cases "f a")
    case Out_of_fuel
    with Cons.prems x show ?thesis
      by simp
  next
    case (Failed e)
    then have "g a = Failed e"
      using assms(1) [of a] by simp
    with Failed x show ?thesis
      by simp
  next
    case (Text b)
    then have g: "g a = Text b"
      using assms(1) [of a] by simp
    from Cons.prems x Text have "collect (map (\<lambda>(p, a). (p, f a)) xs) \<noteq> Out_of_fuel"
      by (auto dest: emit_fuel)
    from Cons.IH [OF this] show ?thesis
      by (simp add: x Text g)
  qed
qed

lemma expand_more_fuel:
  "expand env n ts \<noteq> Out_of_fuel \<Longrightarrow> expand env (Suc n) ts = expand env n ts"
proof (induction n arbitrary: ts)
  case 0
  then show ?case by simp
next
  case (Suc n)
  show ?case
  proof (cases ts)
    case Nil
    then show ?thesis by simp
  next
    case (Cons p ts')
    obtain t h where p: "p = (t, h)"
      by (cases p)
    note ts = Cons [unfolded p]
    have final: "expand env (Suc (Suc n)) ((t, h) # ts') = expand env (Suc n) ((t, h) # ts')"
      if "expand env (Suc n) ((t, h) # ts') = emit (t, h) (expand env n ts')"
        and "expand env (Suc (Suc n)) ((t, h) # ts') = emit (t, h) (expand env (Suc n) ts')"
    proof -
      from Suc.prems that(1) have "expand env n ts' \<noteq> Out_of_fuel"
        by (auto simp add: ts dest: emit_fuel)
      from Suc.IH [OF this] that show ?thesis
        by simp
    qed
    show ?thesis
    proof (cases "t \<in> set h")
      case True
      then show ?thesis
        unfolding ts by (intro final) simp_all
    next
      case hidden: False
      show ?thesis
      proof (cases "env t")
        case None
        with hidden show ?thesis
          unfolding ts by (intro final) simp_all
      next
        case (Some d)
        show ?thesis
        proof (cases d)
          case (Object_like body)
          from Suc.prems have "expand env n (hide (t # h) (source body) @ ts') \<noteq> Out_of_fuel"
            by (simp add: ts hidden Some Object_like)
          from Suc.IH [OF this] show ?thesis
            by (simp add: ts hidden Some Object_like)
        next
          case (Function_like ps body)
          show ?thesis
          proof (cases ts')
            case Nil
            with hidden Some Function_like show ?thesis
              unfolding ts by (intro final) simp_all
          next
            case (Cons u us)
            show ?thesis
            proof (cases "fst u = ''(''")
              case False
              with hidden Some Function_like Cons show ?thesis
                unfolding ts by (intro final) simp_all
            next
              case paren: True
              show ?thesis
              proof (cases "bind_args ps us")
                case (Inl e)
                with hidden Some Function_like Cons paren show ?thesis
                  by (simp add: ts)
              next
                case (Inr x)
                obtain bs h' rest where x: "x = (bs, h', rest)"
                  by (cases x)
                let ?args = "\<lambda>k. collect (map (\<lambda>(p, a). (p, expand env k a))
                                  (filter (\<lambda>(p, a). p \<in> set body) bs))"
                have unfold: "expand env (Suc k) ((t, h) # ts') =
                    (case ?args k of
                       Out_of_fuel \<Rightarrow> Out_of_fuel
                     | Failed e \<Rightarrow> Failed e
                     | Text bs' \<Rightarrow>
                         expand env k
                           (hide (t # filter (\<lambda>x. x \<in> set h') h) (substitute bs' body) @ rest))"
                  for k
                  by (simp add: hidden Some Function_like Cons paren Inr x)
                from Suc.prems [unfolded ts] have args: "?args n \<noteq> Out_of_fuel"
                  by (cases "?args n") (simp_all only: unfold result.case, simp_all)
                have same: "?args (Suc n) = ?args n"
                  by (rule collect_more_fuel [OF _ args]) (rule Suc.IH)
                show ?thesis
                proof (cases "?args n")
                  case Out_of_fuel
                  with args show ?thesis by simp
                next
                  case (Failed e)
                  then show ?thesis
                    by (simp only: ts unfold same result.case)
                next
                  case (Text bs')
                  from Suc.prems [unfolded ts unfold Text result.case]
                  have "expand env (Suc n)
                      (hide (t # filter (\<lambda>x. x \<in> set h') h) (substitute bs' body) @ rest) =
                    expand env n
                      (hide (t # filter (\<lambda>x. x \<in> set h') h) (substitute bs' body) @ rest)"
                    by (rule Suc.IH)
                  with Text show ?thesis
                    by (simp only: ts unfold same result.case)
                qed
              qed
            qed
          qed
        qed
      qed
    qed
  qed
qed

lemma expand_enough_fuel:
  assumes "expand env n ts \<noteq> Out_of_fuel" and "n \<le> n'"
  shows "expand env n' ts = expand env n ts"
  using assms(2,1)
proof (induction rule: dec_induct)
  case base
  show ?case by simp
next
  case (step k)
  then show ?case
    using expand_more_fuel [of env k ts] by simp
qed

lemma preprocess_enough_fuel:
  assumes "preprocess others n src \<noteq> Out_of_fuel" and "n \<le> n'"
  shows "preprocess others n' src = preprocess others n src"
proof -
  from assms(1) have "expand (in_force others) n (source src) \<noteq> Out_of_fuel"
    by (auto simp add: preprocess_def split: result.splits)
  from expand_enough_fuel [OF this assms(2)] show ?thesis
    by (simp add: preprocess_def)
qed

section \<open>Facts about nodes\<close>





lemma placeholder_replaced_id:
  "''MACRO_PLACEHOLDER'' \<notin> set ts \<Longrightarrow> placeholder_replaced ts = ts"
  by (induction ts) (auto simp add: placeholder_replaced_def)




lemma is_identifier_arg_ok: "is_identifier t \<Longrightarrow> arg_ok True 0 [t]"
  by (cases t) (auto simp add: nondigit_def)

lemma zmk_invocationI:
  assumes "m = ''ZMK_MACRO'' \<or> m = ''ZMK_MACRO1'' \<or> m = ''ZMK_MACRO2''"
    and "arg_ok True 0 name" and "arg_ok False 0 va"
    and "names_only_placeholder others name" and "names_only_placeholder others va"
  shows "zmk_invocation others (m, name, va)"
  using assms by (simp add: zmk_invocation_def)


lemma length_invocation: "length (invocation m name va) = length name + length va + 4"
  by (simp add: invocation_def)

lemma length_concat_member:
  "x \<in> set xs \<Longrightarrow> length (f x) \<le> length (concat (map f xs))"
  by (induction xs) auto


lemma unterminated_argument_list:
  assumes "0 < n" and "'')'' \<notin> set va"
  shows "preprocess others n (invocation ''ZMK_MACRO'' [''(''] va) = Failed Unterminated_argument_list"
proof -
  have none: "take_arg split (Suc d) (map (\<lambda>t. (t, [])) va @ [('')'', [])]) = None"
    for split d
    using assms(2) by (induction va arbitrary: d) auto
  from assms(1) obtain k where n: "n = Suc k"
    by (cases n) simp_all
  show ?thesis
    by (simp add: n preprocess_def invocation_def source_def in_force_header ZMK_MACRO_def none)
qed

section \<open>The three node templates\<close>

text \<open>
  The theorems of this and the following sections share their assumptions. \<open>name\<close> is one
  argument and \<open>va\<close> is variadic text, so that \<^verbatim>\<open>m(name, va)\<close> is an invocation with these
  arguments. Neither names a macro in force other than \<^verbatim>\<open>MACRO_PLACEHOLDER\<close>. The words
  \<^verbatim>\<open>compatible\<close>, \<^verbatim>\<open>binding\<close> and \<^verbatim>\<open>cells\<close> are not macros in force. The number \<open>n\<close> of steps is
  more than six times the length of the source text; a result once reached stays with more
  steps (lemma \<open>preprocess_enough_fuel\<close>).
\<close>

text \<open>
  C1, as amended. Let \<open>name\<close> be one argument and \<open>va\<close> variadic text, neither naming a
  macro in force other than \<^verbatim>\<open>MACRO_PLACEHOLDER\<close>, and let \<^verbatim>\<open>compatible\<close>, \<^verbatim>\<open>binding\<close> and
  \<^verbatim>\<open>cells\<close> not be macros in force. Then \<^verbatim>\<open>ZMK_MACRO(name, va)\<close> expands to a node whose label
  and node name are both \<open>name\<close> with every \<^verbatim>\<open>MACRO_PLACEHOLDER\<close> replaced by \<^verbatim>\<open>0\<close>, holding
  \<^verbatim>\<open>compatible = "zmk,behavior-macro"\<close>, then \<^verbatim>\<open>#binding-cells = <0>\<close>, then
  \<open>va\<close> with every \<^verbatim>\<open>MACRO_PLACEHOLDER\<close> replaced by \<^verbatim>\<open>0\<close>, then the closing \<^verbatim>\<open>};\<close>. When
  \<^verbatim>\<open>MACRO_PLACEHOLDER\<close> occurs in neither, label and node name are \<open>name\<close> itself and \<open>va\<close>
  stands in the body as supplied.
\<close>

theorem ZMK_MACRO_node:
  assumes "arg_ok True 0 name" and "arg_ok False 0 va"
    and "names_only_placeholder others name" and "names_only_placeholder others va"
    and "template_words_free others"
    and "6 * length (invocation ''ZMK_MACRO'' name va) < n"
  shows \<open>preprocess others n (invocation ''ZMK_MACRO'' name va) =
     Text (placeholder_replaced name @ '':'' # placeholder_replaced name @
       [''{'',
        ''compatible'', ''='', ''"zmk,behavior-macro"'', '';'',
        ''#'', ''binding'', ''-'', ''cells'', ''='', ''<'', ''0'', ''>'', '';''] @
       placeholder_replaced va @ [''}'', '';'']) \<and>
   (''MACRO_PLACEHOLDER'' \<notin> set name \<and> ''MACRO_PLACEHOLDER'' \<notin> set va \<longrightarrow>
    preprocess others n (invocation ''ZMK_MACRO'' name va) =
      Text (name @ '':'' # name @
        [''{'',
         ''compatible'', ''='', ''"zmk,behavior-macro"'', '';'',
         ''#'', ''binding'', ''-'', ''cells'', ''='', ''<'', ''0'', ''>'', '';''] @
        va @ [''}'', '';'']))\<close>
proof -
  from assms have "zmk_invocation others (''ZMK_MACRO'', name, va)"
    by (simp add: zmk_invocation_def)
  from preprocess_invocation [OF assms(5) this assms(6)] show ?thesis
    by (simp add: node_ZMK_MACRO placeholder_replaced_id)
qed

text \<open>The theorem on line 3 of a keymap, at \<^verbatim>\<open>ZMK_MACRO(tap_ab, bindings = <&kp A>, <&kp B>;)\<close>.\<close>

theorem ZMK_MACRO_node_witness:
  \<open>arg_ok True 0 [''tap_ab''] \<and>
   arg_ok False 0
     [''bindings'', ''='', ''<'', ''&'', ''kp'', ''A'', ''>'', '','', ''<'', ''&'', ''kp'',
      ''B'', ''>'', '';''] \<and>
   names_only_placeholder (at_line ''3'') [''tap_ab''] \<and>
   names_only_placeholder (at_line ''3'')
     [''bindings'', ''='', ''<'', ''&'', ''kp'', ''A'', ''>'', '','', ''<'', ''&'', ''kp'',
      ''B'', ''>'', '';''] \<and>
   template_words_free (at_line ''3'') \<and>
   preprocess (at_line ''3'') 200
     (invocation ''ZMK_MACRO'' [''tap_ab'']
        [''bindings'', ''='', ''<'', ''&'', ''kp'', ''A'', ''>'', '','', ''<'', ''&'', ''kp'',
         ''B'', ''>'', '';'']) =
     Text [''tap_ab'', '':'', ''tap_ab'', ''{'',
           ''compatible'', ''='', ''"zmk,behavior-macro"'', '';'',
           ''#'', ''binding'', ''-'', ''cells'', ''='', ''<'', ''0'', ''>'', '';'',
           ''bindings'', ''='', ''<'', ''&'', ''kp'', ''A'', ''>'', '','', ''<'', ''&'', ''kp'',
           ''B'', ''>'', '';'',
           ''}'', '';'']\<close>
proof -
  have name: \<open>arg_ok True 0 [''tap_ab'']\<close>
    and va: \<open>arg_ok False 0
     [''bindings'', ''='', ''<'', ''&'', ''kp'', ''A'', ''>'', '','', ''<'', ''&'', ''kp'',
      ''B'', ''>'', '';'']\<close>
    by simp_all
  have only_name: \<open>names_only_placeholder (at_line ''3'') [''tap_ab'']\<close>
    by code_simp
  have only_va: \<open>names_only_placeholder (at_line ''3'')
     [''bindings'', ''='', ''<'', ''&'', ''kp'', ''A'', ''>'', '','', ''<'', ''&'', ''kp'',
      ''B'', ''>'', '';'']\<close>
    by code_simp
  have words: \<open>template_words_free (at_line ''3'')\<close>
    by (simp add: template_words_free_iff at_line_def)
  have fuel: \<open>6 * length (invocation ''ZMK_MACRO'' [''tap_ab'']
        [''bindings'', ''='', ''<'', ''&'', ''kp'', ''A'', ''>'', '','', ''<'', ''&'', ''kp'',
         ''B'', ''>'', '';'']) < 200\<close>
    by (simp add: invocation_def)
  from ZMK_MACRO_node [OF name va only_name only_va words fuel] name va only_name only_va words
  show ?thesis
    by (simp add: placeholder_replaced_def)
qed

text \<open>
  C1 as stated fails where an argument uses the header's own \<^verbatim>\<open>MACRO_PLACEHOLDER\<close>: on
  line 3 of a keymap, \<^verbatim>\<open>ZMK_MACRO(MACRO_PLACEHOLDER, bindings = <&kp MACRO_PLACEHOLDER>;)\<close>
  expands to a node with label and node name \<^verbatim>\<open>0\<close> and with \<^verbatim>\<open>&kp 0\<close> in its body.
\<close>

theorem ZMK_MACRO_node_counterexample:
  \<open>preprocess (at_line ''3'') 200
     (invocation ''ZMK_MACRO'' [''MACRO_PLACEHOLDER'']
        [''bindings'', ''='', ''<'', ''&'', ''kp'', ''MACRO_PLACEHOLDER'', ''>'', '';'']) =
     Text [''0'', '':'', ''0'', ''{'',
           ''compatible'', ''='', ''"zmk,behavior-macro"'', '';'',
           ''#'', ''binding'', ''-'', ''cells'', ''='', ''<'', ''0'', ''>'', '';'',
           ''bindings'', ''='', ''<'', ''&'', ''kp'', ''0'', ''>'', '';'',
           ''}'', '';''] \<and>
   preprocess (at_line ''3'') 200
     (invocation ''ZMK_MACRO'' [''MACRO_PLACEHOLDER'']
        [''bindings'', ''='', ''<'', ''&'', ''kp'', ''MACRO_PLACEHOLDER'', ''>'', '';'']) \<noteq>
     Text [''MACRO_PLACEHOLDER'', '':'', ''MACRO_PLACEHOLDER'', ''{'',
           ''compatible'', ''='', ''"zmk,behavior-macro"'', '';'',
           ''#'', ''binding'', ''-'', ''cells'', ''='', ''<'', ''0'', ''>'', '';'',
           ''bindings'', ''='', ''<'', ''&'', ''kp'', ''MACRO_PLACEHOLDER'', ''>'', '';'',
           ''}'', '';'']\<close>
  by code_simp

text \<open>
  C2, as amended. Let \<open>name\<close> be one argument and \<open>va\<close> variadic text, neither naming a
  macro in force other than \<^verbatim>\<open>MACRO_PLACEHOLDER\<close>, and let \<^verbatim>\<open>compatible\<close>, \<^verbatim>\<open>binding\<close> and
  \<^verbatim>\<open>cells\<close> not be macros in force. Then \<^verbatim>\<open>ZMK_MACRO1(name, va)\<close> expands to a node whose label
  and node name are both \<open>name\<close> with every \<^verbatim>\<open>MACRO_PLACEHOLDER\<close> replaced by \<^verbatim>\<open>0\<close>, holding
  \<^verbatim>\<open>compatible = "zmk,behavior-macro-one-param"\<close>, then \<^verbatim>\<open>#binding-cells = <1>\<close>, then
  \<open>va\<close> with every \<^verbatim>\<open>MACRO_PLACEHOLDER\<close> replaced by \<^verbatim>\<open>0\<close>, then the closing \<^verbatim>\<open>};\<close>. When
  \<^verbatim>\<open>MACRO_PLACEHOLDER\<close> occurs in neither, label and node name are \<open>name\<close> itself and \<open>va\<close>
  stands in the body as supplied.
\<close>

theorem ZMK_MACRO1_node:
  assumes "arg_ok True 0 name" and "arg_ok False 0 va"
    and "names_only_placeholder others name" and "names_only_placeholder others va"
    and "template_words_free others"
    and "6 * length (invocation ''ZMK_MACRO1'' name va) < n"
  shows \<open>preprocess others n (invocation ''ZMK_MACRO1'' name va) =
     Text (placeholder_replaced name @ '':'' # placeholder_replaced name @
       [''{'',
        ''compatible'', ''='', ''"zmk,behavior-macro-one-param"'', '';'',
        ''#'', ''binding'', ''-'', ''cells'', ''='', ''<'', ''1'', ''>'', '';''] @
       placeholder_replaced va @ [''}'', '';'']) \<and>
   (''MACRO_PLACEHOLDER'' \<notin> set name \<and> ''MACRO_PLACEHOLDER'' \<notin> set va \<longrightarrow>
    preprocess others n (invocation ''ZMK_MACRO1'' name va) =
      Text (name @ '':'' # name @
        [''{'',
         ''compatible'', ''='', ''"zmk,behavior-macro-one-param"'', '';'',
         ''#'', ''binding'', ''-'', ''cells'', ''='', ''<'', ''1'', ''>'', '';''] @
        va @ [''}'', '';'']))\<close>
proof -
  from assms have "zmk_invocation others (''ZMK_MACRO1'', name, va)"
    by (simp add: zmk_invocation_def)
  from preprocess_invocation [OF assms(5) this assms(6)] show ?thesis
    by (simp add: node_ZMK_MACRO1 placeholder_replaced_id)
qed

text \<open>The theorem on line 3 of a keymap, at \<^verbatim>\<open>ZMK_MACRO1(one_shot, bindings = <&macro_param_1to1>, <&kp A>;)\<close>.\<close>

theorem ZMK_MACRO1_node_witness:
  \<open>arg_ok True 0 [''one_shot''] \<and>
   arg_ok False 0
     [''bindings'', ''='', ''<'', ''&'', ''macro_param_1to1'', ''>'', '','', ''<'', ''&'',
      ''kp'', ''A'', ''>'', '';''] \<and>
   names_only_placeholder (at_line ''3'') [''one_shot''] \<and>
   names_only_placeholder (at_line ''3'')
     [''bindings'', ''='', ''<'', ''&'', ''macro_param_1to1'', ''>'', '','', ''<'', ''&'',
      ''kp'', ''A'', ''>'', '';''] \<and>
   template_words_free (at_line ''3'') \<and>
   preprocess (at_line ''3'') 200
     (invocation ''ZMK_MACRO1'' [''one_shot'']
        [''bindings'', ''='', ''<'', ''&'', ''macro_param_1to1'', ''>'', '','', ''<'', ''&'',
         ''kp'', ''A'', ''>'', '';'']) =
     Text [''one_shot'', '':'', ''one_shot'', ''{'',
           ''compatible'', ''='', ''"zmk,behavior-macro-one-param"'', '';'',
           ''#'', ''binding'', ''-'', ''cells'', ''='', ''<'', ''1'', ''>'', '';'',
           ''bindings'', ''='', ''<'', ''&'', ''macro_param_1to1'', ''>'', '','', ''<'', ''&'',
           ''kp'', ''A'', ''>'', '';'',
           ''}'', '';'']\<close>
proof -
  have name: \<open>arg_ok True 0 [''one_shot'']\<close>
    and va: \<open>arg_ok False 0
     [''bindings'', ''='', ''<'', ''&'', ''macro_param_1to1'', ''>'', '','', ''<'', ''&'',
      ''kp'', ''A'', ''>'', '';'']\<close>
    by simp_all
  have only_name: \<open>names_only_placeholder (at_line ''3'') [''one_shot'']\<close>
    by code_simp
  have only_va: \<open>names_only_placeholder (at_line ''3'')
     [''bindings'', ''='', ''<'', ''&'', ''macro_param_1to1'', ''>'', '','', ''<'', ''&'',
      ''kp'', ''A'', ''>'', '';'']\<close>
    by code_simp
  have words: \<open>template_words_free (at_line ''3'')\<close>
    by (simp add: template_words_free_iff at_line_def)
  have fuel: \<open>6 * length (invocation ''ZMK_MACRO1'' [''one_shot'']
        [''bindings'', ''='', ''<'', ''&'', ''macro_param_1to1'', ''>'', '','', ''<'', ''&'',
         ''kp'', ''A'', ''>'', '';'']) < 200\<close>
    by (simp add: invocation_def)
  from ZMK_MACRO1_node [OF name va only_name only_va words fuel] name va only_name only_va words
  show ?thesis
    by (simp add: placeholder_replaced_def)
qed

text \<open>
  C2 as stated fails where the variadic text uses the header's own \<^verbatim>\<open>MACRO_PLACEHOLDER\<close>,
  as the bindings of a one-parameter macro do: on line 3 of a keymap, the body of
  \<^verbatim>\<open>ZMK_MACRO1(key_of, bindings = <&macro_param_1to1>, <&kp MACRO_PLACEHOLDER>;)\<close>
  holds \<^verbatim>\<open>&kp 0\<close>.
\<close>

theorem ZMK_MACRO1_node_counterexample:
  \<open>preprocess (at_line ''3'') 200
     (invocation ''ZMK_MACRO1'' [''key_of'']
        [''bindings'', ''='', ''<'', ''&'', ''macro_param_1to1'', ''>'', '','', ''<'', ''&'',
         ''kp'', ''MACRO_PLACEHOLDER'', ''>'', '';'']) =
     Text [''key_of'', '':'', ''key_of'', ''{'',
           ''compatible'', ''='', ''"zmk,behavior-macro-one-param"'', '';'',
           ''#'', ''binding'', ''-'', ''cells'', ''='', ''<'', ''1'', ''>'', '';'',
           ''bindings'', ''='', ''<'', ''&'', ''macro_param_1to1'', ''>'', '','', ''<'', ''&'',
           ''kp'', ''0'', ''>'', '';'',
           ''}'', '';''] \<and>
   preprocess (at_line ''3'') 200
     (invocation ''ZMK_MACRO1'' [''key_of'']
        [''bindings'', ''='', ''<'', ''&'', ''macro_param_1to1'', ''>'', '','', ''<'', ''&'',
         ''kp'', ''MACRO_PLACEHOLDER'', ''>'', '';'']) \<noteq>
     Text [''key_of'', '':'', ''key_of'', ''{'',
           ''compatible'', ''='', ''"zmk,behavior-macro-one-param"'', '';'',
           ''#'', ''binding'', ''-'', ''cells'', ''='', ''<'', ''1'', ''>'', '';'',
           ''bindings'', ''='', ''<'', ''&'', ''macro_param_1to1'', ''>'', '','', ''<'', ''&'',
           ''kp'', ''MACRO_PLACEHOLDER'', ''>'', '';'',
           ''}'', '';'']\<close>
  by code_simp

text \<open>
  C3, as amended. Let \<open>name\<close> be one argument and \<open>va\<close> variadic text, neither naming a
  macro in force other than \<^verbatim>\<open>MACRO_PLACEHOLDER\<close>, and let \<^verbatim>\<open>compatible\<close>, \<^verbatim>\<open>binding\<close> and
  \<^verbatim>\<open>cells\<close> not be macros in force. Then \<^verbatim>\<open>ZMK_MACRO2(name, va)\<close> expands to a node whose label
  and node name are both \<open>name\<close> with every \<^verbatim>\<open>MACRO_PLACEHOLDER\<close> replaced by \<^verbatim>\<open>0\<close>, holding
  \<^verbatim>\<open>compatible = "zmk,behavior-macro-two-param"\<close>, then \<^verbatim>\<open>#binding-cells = <2>\<close>, then
  \<open>va\<close> with every \<^verbatim>\<open>MACRO_PLACEHOLDER\<close> replaced by \<^verbatim>\<open>0\<close>, then the closing \<^verbatim>\<open>};\<close>. When
  \<^verbatim>\<open>MACRO_PLACEHOLDER\<close> occurs in neither, label and node name are \<open>name\<close> itself and \<open>va\<close>
  stands in the body as supplied.
\<close>

theorem ZMK_MACRO2_node:
  assumes "arg_ok True 0 name" and "arg_ok False 0 va"
    and "names_only_placeholder others name" and "names_only_placeholder others va"
    and "template_words_free others"
    and "6 * length (invocation ''ZMK_MACRO2'' name va) < n"
  shows \<open>preprocess others n (invocation ''ZMK_MACRO2'' name va) =
     Text (placeholder_replaced name @ '':'' # placeholder_replaced name @
       [''{'',
        ''compatible'', ''='', ''"zmk,behavior-macro-two-param"'', '';'',
        ''#'', ''binding'', ''-'', ''cells'', ''='', ''<'', ''2'', ''>'', '';''] @
       placeholder_replaced va @ [''}'', '';'']) \<and>
   (''MACRO_PLACEHOLDER'' \<notin> set name \<and> ''MACRO_PLACEHOLDER'' \<notin> set va \<longrightarrow>
    preprocess others n (invocation ''ZMK_MACRO2'' name va) =
      Text (name @ '':'' # name @
        [''{'',
         ''compatible'', ''='', ''"zmk,behavior-macro-two-param"'', '';'',
         ''#'', ''binding'', ''-'', ''cells'', ''='', ''<'', ''2'', ''>'', '';''] @
        va @ [''}'', '';'']))\<close>
proof -
  from assms have "zmk_invocation others (''ZMK_MACRO2'', name, va)"
    by (simp add: zmk_invocation_def)
  from preprocess_invocation [OF assms(5) this assms(6)] show ?thesis
    by (simp add: node_ZMK_MACRO2 placeholder_replaced_id)
qed

text \<open>The theorem on line 3 of a keymap, at \<^verbatim>\<open>ZMK_MACRO2(layer_key, wait-ms = <30>; bindings = <&macro_param_2to1>, <&mo (1)>;)\<close>.\<close>

theorem ZMK_MACRO2_node_witness:
  \<open>arg_ok True 0 [''layer_key''] \<and>
   arg_ok False 0
     [''wait'', ''-'', ''ms'', ''='', ''<'', ''30'', ''>'', '';'',
      ''bindings'', ''='', ''<'', ''&'', ''macro_param_2to1'', ''>'', '','', ''<'', ''&'',
      ''mo'', ''('', ''1'', '')'', ''>'', '';''] \<and>
   names_only_placeholder (at_line ''3'') [''layer_key''] \<and>
   names_only_placeholder (at_line ''3'')
     [''wait'', ''-'', ''ms'', ''='', ''<'', ''30'', ''>'', '';'',
      ''bindings'', ''='', ''<'', ''&'', ''macro_param_2to1'', ''>'', '','', ''<'', ''&'',
      ''mo'', ''('', ''1'', '')'', ''>'', '';''] \<and>
   template_words_free (at_line ''3'') \<and>
   preprocess (at_line ''3'') 200
     (invocation ''ZMK_MACRO2'' [''layer_key'']
        [''wait'', ''-'', ''ms'', ''='', ''<'', ''30'', ''>'', '';'',
         ''bindings'', ''='', ''<'', ''&'', ''macro_param_2to1'', ''>'', '','', ''<'', ''&'',
         ''mo'', ''('', ''1'', '')'', ''>'', '';'']) =
     Text [''layer_key'', '':'', ''layer_key'', ''{'',
           ''compatible'', ''='', ''"zmk,behavior-macro-two-param"'', '';'',
           ''#'', ''binding'', ''-'', ''cells'', ''='', ''<'', ''2'', ''>'', '';'',
           ''wait'', ''-'', ''ms'', ''='', ''<'', ''30'', ''>'', '';'',
           ''bindings'', ''='', ''<'', ''&'', ''macro_param_2to1'', ''>'', '','', ''<'', ''&'',
           ''mo'', ''('', ''1'', '')'', ''>'', '';'',
           ''}'', '';'']\<close>
proof -
  have name: \<open>arg_ok True 0 [''layer_key'']\<close>
    and va: \<open>arg_ok False 0
     [''wait'', ''-'', ''ms'', ''='', ''<'', ''30'', ''>'', '';'',
      ''bindings'', ''='', ''<'', ''&'', ''macro_param_2to1'', ''>'', '','', ''<'', ''&'',
      ''mo'', ''('', ''1'', '')'', ''>'', '';'']\<close>
    by simp_all
  have only_name: \<open>names_only_placeholder (at_line ''3'') [''layer_key'']\<close>
    by code_simp
  have only_va: \<open>names_only_placeholder (at_line ''3'')
     [''wait'', ''-'', ''ms'', ''='', ''<'', ''30'', ''>'', '';'',
      ''bindings'', ''='', ''<'', ''&'', ''macro_param_2to1'', ''>'', '','', ''<'', ''&'',
      ''mo'', ''('', ''1'', '')'', ''>'', '';'']\<close>
    by code_simp
  have words: \<open>template_words_free (at_line ''3'')\<close>
    by (simp add: template_words_free_iff at_line_def)
  have fuel: \<open>6 * length (invocation ''ZMK_MACRO2'' [''layer_key'']
        [''wait'', ''-'', ''ms'', ''='', ''<'', ''30'', ''>'', '';'',
         ''bindings'', ''='', ''<'', ''&'', ''macro_param_2to1'', ''>'', '','', ''<'', ''&'',
         ''mo'', ''('', ''1'', '')'', ''>'', '';'']) < 200\<close>
    by (simp add: invocation_def)
  from ZMK_MACRO2_node [OF name va only_name only_va words fuel] name va only_name only_va words
  show ?thesis
    by (simp add: placeholder_replaced_def)
qed

text \<open>
  C3 as stated fails where the variadic text uses the header's own \<^verbatim>\<open>MACRO_PLACEHOLDER\<close>,
  as the bindings of a two-parameter macro do: on line 3 of a keymap, the body of
  \<^verbatim>\<open>ZMK_MACRO2(mod_tap_of, bindings = <&macro_param_1to1>, <&macro_param_2to2>,
  <&mt MACRO_PLACEHOLDER MACRO_PLACEHOLDER>;)\<close> holds \<^verbatim>\<open>&mt 0 0\<close>.
\<close>

theorem ZMK_MACRO2_node_counterexample:
  \<open>preprocess (at_line ''3'') 200
     (invocation ''ZMK_MACRO2'' [''mod_tap_of'']
        [''bindings'', ''='', ''<'', ''&'', ''macro_param_1to1'', ''>'', '','', ''<'', ''&'',
         ''macro_param_2to2'', ''>'', '','', ''<'', ''&'', ''mt'', ''MACRO_PLACEHOLDER'',
         ''MACRO_PLACEHOLDER'', ''>'', '';'']) =
     Text [''mod_tap_of'', '':'', ''mod_tap_of'', ''{'',
           ''compatible'', ''='', ''"zmk,behavior-macro-two-param"'', '';'',
           ''#'', ''binding'', ''-'', ''cells'', ''='', ''<'', ''2'', ''>'', '';'',
           ''bindings'', ''='', ''<'', ''&'', ''macro_param_1to1'', ''>'', '','', ''<'', ''&'',
           ''macro_param_2to2'', ''>'', '','', ''<'', ''&'', ''mt'', ''0'', ''0'', ''>'', '';'',
           ''}'', '';''] \<and>
   preprocess (at_line ''3'') 200
     (invocation ''ZMK_MACRO2'' [''mod_tap_of'']
        [''bindings'', ''='', ''<'', ''&'', ''macro_param_1to1'', ''>'', '','', ''<'', ''&'',
         ''macro_param_2to2'', ''>'', '','', ''<'', ''&'', ''mt'', ''MACRO_PLACEHOLDER'',
         ''MACRO_PLACEHOLDER'', ''>'', '';'']) \<noteq>
     Text [''mod_tap_of'', '':'', ''mod_tap_of'', ''{'',
           ''compatible'', ''='', ''"zmk,behavior-macro-two-param"'', '';'',
           ''#'', ''binding'', ''-'', ''cells'', ''='', ''<'', ''2'', ''>'', '';'',
           ''bindings'', ''='', ''<'', ''&'', ''macro_param_1to1'', ''>'', '','', ''<'', ''&'',
           ''macro_param_2to2'', ''>'', '','', ''<'', ''&'', ''mt'', ''MACRO_PLACEHOLDER'',
           ''MACRO_PLACEHOLDER'', ''>'', '';'',
           ''}'', '';'']\<close>
  by code_simp

section \<open>The variadic text\<close>

text \<open>
  C4, as amended. Let \<open>m\<close> be one of the three macros, \<open>name\<close> one argument and \<open>va\<close> variadic
  text, neither naming a macro in force other than \<^verbatim>\<open>MACRO_PLACEHOLDER\<close>, and let
  \<^verbatim>\<open>compatible\<close>, \<^verbatim>\<open>binding\<close> and \<^verbatim>\<open>cells\<close> not be macros in force. Then the expansion of
  \<^verbatim>\<open>m(name, va)\<close> is the expansion of \<^verbatim>\<open>m(name, )\<close> with \<open>va\<close> put before the closing \<^verbatim>\<open>};\<close>,
  token for token and in the order supplied, except that every \<^verbatim>\<open>MACRO_PLACEHOLDER\<close> of \<open>va\<close>
  has become \<^verbatim>\<open>0\<close>. What stands before \<open>va\<close> is label, node name and the two properties of
  \<open>m\<close>. When \<^verbatim>\<open>MACRO_PLACEHOLDER\<close> does not occur in \<open>va\<close>, the text is there unmodified.
\<close>

theorem variadic_text_in_place:
  assumes "m = ''ZMK_MACRO'' \<or> m = ''ZMK_MACRO1'' \<or> m = ''ZMK_MACRO2''"
    and "arg_ok True 0 name" and "arg_ok False 0 va"
    and "names_only_placeholder others name" and "names_only_placeholder others va"
    and "template_words_free others"
    and "6 * length (invocation m name va) < n"
  shows \<open>\<exists>pre. node m (placeholder_replaced name) [] = pre @ [''}'', '';''] \<and>
     preprocess others n (invocation m name []) = Text (pre @ [''}'', '';'']) \<and>
     preprocess others n (invocation m name va) =
       Text (pre @ placeholder_replaced va @ [''}'', '';'']) \<and>
     (''MACRO_PLACEHOLDER'' \<notin> set va \<longrightarrow>
      preprocess others n (invocation m name va) = Text (pre @ va @ [''}'', '';'']))\<close>
proof -
  have empty: "zmk_invocation others (m, name, [])"
    using assms(1,2,4) by (simp add: zmk_invocation_def names_only_placeholder_def)
  have fuel: "6 * length (invocation m name []) < n"
    using assms(7) by (simp add: length_invocation)
  have full: "zmk_invocation others (m, name, va)"
    using assms(1-5) by (rule zmk_invocationI)
  obtain props
    where shape: "\<And>name va. node m name va =
        name @ '':'' # name @ ''{'' # (props @ va) @ [''}'', '';'']"
    using assms(1) by (auto simp add: node_ZMK_MACRO node_ZMK_MACRO1 node_ZMK_MACRO2)
  let ?pre = "placeholder_replaced name @ '':'' # placeholder_replaced name @ ''{'' # props"
  have "node m (placeholder_replaced name) [] = ?pre @ [''}'', '';'']"
    by (simp add: shape)
  moreover have "preprocess others n (invocation m name []) = Text (?pre @ [''}'', '';''])"
    using preprocess_invocation [OF assms(6) empty fuel]
    by (simp add: shape placeholder_replaced_def)
  moreover have "preprocess others n (invocation m name va) =
      Text (?pre @ placeholder_replaced va @ [''}'', '';''])"
    using preprocess_invocation [OF assms(6) full assms(7)] by (simp add: shape)
  ultimately show ?thesis
    by (auto simp add: placeholder_replaced_id)
qed

text \<open>
  The theorem on line 3 of a keymap, at
  \<^verbatim>\<open>ZMK_MACRO1(layer_1, bindings = <&macro_press>, <&mo 1>;)\<close>.
\<close>

theorem variadic_text_in_place_witness:
  \<open>arg_ok True 0 [''layer_1''] \<and>
   arg_ok False 0
     [''bindings'', ''='', ''<'', ''&'', ''macro_press'', ''>'', '','', ''<'', ''&'', ''mo'',
      ''1'', ''>'', '';''] \<and>
   names_only_placeholder (at_line ''3'') [''layer_1''] \<and>
   names_only_placeholder (at_line ''3'')
     [''bindings'', ''='', ''<'', ''&'', ''macro_press'', ''>'', '','', ''<'', ''&'', ''mo'',
      ''1'', ''>'', '';''] \<and>
   template_words_free (at_line ''3'') \<and>
   (\<exists>pre. node ''ZMK_MACRO1'' [''layer_1''] [] = pre @ [''}'', '';''] \<and>
      preprocess (at_line ''3'') 200 (invocation ''ZMK_MACRO1'' [''layer_1''] []) = Text (pre @ [''}'', '';'']) \<and>
      preprocess (at_line ''3'') 200
        (invocation ''ZMK_MACRO1'' [''layer_1'']
           [''bindings'', ''='', ''<'', ''&'', ''macro_press'', ''>'', '','', ''<'', ''&'',
            ''mo'', ''1'', ''>'', '';'']) =
        Text (pre @
          [''bindings'', ''='', ''<'', ''&'', ''macro_press'', ''>'', '','', ''<'', ''&'',
           ''mo'', ''1'', ''>'', '';''] @
          [''}'', '';'']))\<close>
proof -
  have name: \<open>arg_ok True 0 [''layer_1'']\<close>
    and va: \<open>arg_ok False 0
     [''bindings'', ''='', ''<'', ''&'', ''macro_press'', ''>'', '','', ''<'', ''&'', ''mo'',
      ''1'', ''>'', '';'']\<close>
    by simp_all
  have only_name: \<open>names_only_placeholder (at_line ''3'') [''layer_1'']\<close>
    by code_simp
  have only_va: \<open>names_only_placeholder (at_line ''3'')
     [''bindings'', ''='', ''<'', ''&'', ''macro_press'', ''>'', '','', ''<'', ''&'', ''mo'',
      ''1'', ''>'', '';'']\<close>
    by code_simp
  have words: \<open>template_words_free (at_line ''3'')\<close>
    by (simp add: template_words_free_iff at_line_def)
  have fuel: \<open>6 * length (invocation ''ZMK_MACRO1'' [''layer_1'']
        [''bindings'', ''='', ''<'', ''&'', ''macro_press'', ''>'', '','', ''<'', ''&'', ''mo'',
         ''1'', ''>'', '';'']) < 200\<close>
    by (simp add: invocation_def)
  from variadic_text_in_place [OF _ name va only_name only_va words fuel]
    name va only_name only_va words
  show ?thesis
    by (simp add: placeholder_replaced_def)
qed

text \<open>
  C4 as stated fails where the variadic text uses the header's own \<^verbatim>\<open>MACRO_PLACEHOLDER\<close>: on
  line 3 of a keymap, the body of
  \<^verbatim>\<open>ZMK_MACRO1(layer_of, bindings = <&macro_press>, <&mo MACRO_PLACEHOLDER>;)\<close> holds
  \<^verbatim>\<open><&mo 0>\<close> where \<^verbatim>\<open><&mo MACRO_PLACEHOLDER>\<close> was supplied.
\<close>

theorem variadic_text_in_place_counterexample:
  \<open>preprocess (at_line ''3'') 200 (invocation ''ZMK_MACRO1'' [''layer_of''] []) =
     Text ([''layer_of'', '':'', ''layer_of'', ''{'',
           ''compatible'', ''='', ''"zmk,behavior-macro-one-param"'', '';'',
           ''#'', ''binding'', ''-'', ''cells'', ''='', ''<'', ''1'', ''>'', '';''] @
       [''}'', '';'']) \<and>
   preprocess (at_line ''3'') 200
     (invocation ''ZMK_MACRO1'' [''layer_of'']
        [''bindings'', ''='', ''<'', ''&'', ''macro_press'', ''>'', '','', ''<'', ''&'', ''mo'',
         ''MACRO_PLACEHOLDER'', ''>'', '';'']) =
     Text ([''layer_of'', '':'', ''layer_of'', ''{'',
           ''compatible'', ''='', ''"zmk,behavior-macro-one-param"'', '';'',
           ''#'', ''binding'', ''-'', ''cells'', ''='', ''<'', ''1'', ''>'', '';''] @
       [''bindings'', ''='', ''<'', ''&'', ''macro_press'', ''>'', '','', ''<'', ''&'', ''mo'',
        ''0'', ''>'', '';''] @
       [''}'', '';'']) \<and>
   preprocess (at_line ''3'') 200
     (invocation ''ZMK_MACRO1'' [''layer_of'']
        [''bindings'', ''='', ''<'', ''&'', ''macro_press'', ''>'', '','', ''<'', ''&'', ''mo'',
         ''MACRO_PLACEHOLDER'', ''>'', '';'']) \<noteq>
     Text ([''layer_of'', '':'', ''layer_of'', ''{'',
           ''compatible'', ''='', ''"zmk,behavior-macro-one-param"'', '';'',
           ''#'', ''binding'', ''-'', ''cells'', ''='', ''<'', ''1'', ''>'', '';''] @
       [''bindings'', ''='', ''<'', ''&'', ''macro_press'', ''>'', '','', ''<'', ''&'', ''mo'',
        ''MACRO_PLACEHOLDER'', ''>'', '';''] @
       [''}'', '';''])\<close>
  by code_simp

section \<open>The three macros compared\<close>

text \<open>
  C5, as amended. Let \<open>name\<close> be one argument and \<open>va\<close> variadic text, neither naming a macro in
  force other than \<^verbatim>\<open>MACRO_PLACEHOLDER\<close>, and let \<^verbatim>\<open>compatible\<close>, \<^verbatim>\<open>binding\<close> and \<^verbatim>\<open>cells\<close> not be
  macros in force. Then the expansions of \<^verbatim>\<open>ZMK_MACRO(name, va)\<close>, \<^verbatim>\<open>ZMK_MACRO1(name, va)\<close> and
  \<^verbatim>\<open>ZMK_MACRO2(name, va)\<close> are the same text but for two tokens: the value of \<^verbatim>\<open>compatible\<close>
  and the number in \<^verbatim>\<open>#binding-cells\<close>.
\<close>

theorem macros_differ_in_two_tokens:
  assumes "arg_ok True 0 name" and "arg_ok False 0 va"
    and "names_only_placeholder others name" and "names_only_placeholder others va"
    and "template_words_free others"
    and "6 * (length name + length va + 4) < n"
  shows \<open>\<exists>pre post.
     pre = placeholder_replaced name @ '':'' # placeholder_replaced name @
             [''{'', ''compatible'', ''=''] \<and>
     post = [''>'', '';''] @ placeholder_replaced va @ [''}'', '';''] \<and>
     preprocess others n (invocation ''ZMK_MACRO'' name va) =
       Text (pre @ ''"zmk,behavior-macro"'' #
         ['';'',
          ''#'', ''binding'', ''-'', ''cells'', ''='', ''<''] @ ''0'' # post) \<and>
     preprocess others n (invocation ''ZMK_MACRO1'' name va) =
       Text (pre @ ''"zmk,behavior-macro-one-param"'' #
         ['';'',
          ''#'', ''binding'', ''-'', ''cells'', ''='', ''<''] @ ''1'' # post) \<and>
     preprocess others n (invocation ''ZMK_MACRO2'' name va) =
       Text (pre @ ''"zmk,behavior-macro-two-param"'' #
         ['';'',
          ''#'', ''binding'', ''-'', ''cells'', ''='', ''<''] @ ''2'' # post)\<close>
proof -
  have call: "zmk_invocation others (m, name, va)"
    if "m = ''ZMK_MACRO'' \<or> m = ''ZMK_MACRO1'' \<or> m = ''ZMK_MACRO2''" for m
    using that assms(1-4) by (rule zmk_invocationI)
  have fuel: "6 * length (invocation m name va) < n" for m
    using assms(6) by (simp add: length_invocation)
  have "preprocess others n (invocation ''ZMK_MACRO'' name va) =
      Text (node ''ZMK_MACRO'' (placeholder_replaced name) (placeholder_replaced va))"
    by (rule preprocess_invocation [OF assms(5) call fuel]) simp
  moreover have "preprocess others n (invocation ''ZMK_MACRO1'' name va) =
      Text (node ''ZMK_MACRO1'' (placeholder_replaced name) (placeholder_replaced va))"
    by (rule preprocess_invocation [OF assms(5) call fuel]) simp
  moreover have "preprocess others n (invocation ''ZMK_MACRO2'' name va) =
      Text (node ''ZMK_MACRO2'' (placeholder_replaced name) (placeholder_replaced va))"
    by (rule preprocess_invocation [OF assms(5) call fuel]) simp
  ultimately show ?thesis
    by (simp add: node_ZMK_MACRO node_ZMK_MACRO1 node_ZMK_MACRO2)
qed

text \<open>
  The theorem on line 3 of a keymap, at the arguments
  \<^verbatim>\<open>(caps_word, bindings = <&kp MACRO_PLACEHOLDER>;)\<close>.
\<close>

theorem macros_differ_in_two_tokens_witness:
  \<open>arg_ok True 0 [''caps_word''] \<and>
   arg_ok False 0 [''bindings'', ''='', ''<'', ''&'', ''kp'', ''MACRO_PLACEHOLDER'', ''>'', '';''] \<and>
   names_only_placeholder (at_line ''3'') [''caps_word''] \<and>
   names_only_placeholder (at_line ''3'')
     [''bindings'', ''='', ''<'', ''&'', ''kp'', ''MACRO_PLACEHOLDER'', ''>'', '';''] \<and>
   template_words_free (at_line ''3'') \<and>
   preprocess (at_line ''3'') 200
     (invocation ''ZMK_MACRO'' [''caps_word''] [''bindings'', ''='', ''<'', ''&'', ''kp'', ''MACRO_PLACEHOLDER'', ''>'', '';'']) =
     Text ([''caps_word'', '':'', ''caps_word'', ''{'',
           ''compatible'', ''=''] @
       ''"zmk,behavior-macro"'' #
       ['';'',
        ''#'', ''binding'', ''-'', ''cells'', ''='', ''<''] @ ''0'' #
       [''>'', '';'',
        ''bindings'', ''='', ''<'', ''&'', ''kp'', ''0'', ''>'', '';'',
        ''}'', '';'']) \<and>
   preprocess (at_line ''3'') 200
     (invocation ''ZMK_MACRO1'' [''caps_word''] [''bindings'', ''='', ''<'', ''&'', ''kp'', ''MACRO_PLACEHOLDER'', ''>'', '';'']) =
     Text ([''caps_word'', '':'', ''caps_word'', ''{'',
           ''compatible'', ''=''] @
       ''"zmk,behavior-macro-one-param"'' #
       ['';'',
        ''#'', ''binding'', ''-'', ''cells'', ''='', ''<''] @ ''1'' #
       [''>'', '';'',
        ''bindings'', ''='', ''<'', ''&'', ''kp'', ''0'', ''>'', '';'',
        ''}'', '';'']) \<and>
   preprocess (at_line ''3'') 200
     (invocation ''ZMK_MACRO2'' [''caps_word''] [''bindings'', ''='', ''<'', ''&'', ''kp'', ''MACRO_PLACEHOLDER'', ''>'', '';'']) =
     Text ([''caps_word'', '':'', ''caps_word'', ''{'',
           ''compatible'', ''=''] @
       ''"zmk,behavior-macro-two-param"'' #
       ['';'',
        ''#'', ''binding'', ''-'', ''cells'', ''='', ''<''] @ ''2'' #
       [''>'', '';'',
        ''bindings'', ''='', ''<'', ''&'', ''kp'', ''0'', ''>'', '';'',
        ''}'', '';''])\<close>
proof -
  have name: \<open>arg_ok True 0 [''caps_word'']\<close>
    and va: \<open>arg_ok False 0 [''bindings'', ''='', ''<'', ''&'', ''kp'', ''MACRO_PLACEHOLDER'', ''>'', '';'']\<close>
    by simp_all
  have only_name: \<open>names_only_placeholder (at_line ''3'') [''caps_word'']\<close>
    by code_simp
  have only_va: \<open>names_only_placeholder (at_line ''3'')
     [''bindings'', ''='', ''<'', ''&'', ''kp'', ''MACRO_PLACEHOLDER'', ''>'', '';'']\<close>
    by code_simp
  have words: \<open>template_words_free (at_line ''3'')\<close>
    by (simp add: template_words_free_iff at_line_def)
  have fuel: \<open>6 * (length [''caps_word''] +
        length [''bindings'', ''='', ''<'', ''&'', ''kp'', ''MACRO_PLACEHOLDER'', ''>'', '';''] + 4) < 200\<close>
    by simp
  from macros_differ_in_two_tokens [OF name va only_name only_va words fuel]
    name va only_name only_va words
  show ?thesis
    by (simp add: placeholder_replaced_def)
qed

text \<open>
  C5 as stated fails where the variadic text names the three macros themselves. A macro is
  not replaced again inside its own expansion (ISO C, 6.10.3.4), while the other two are:
  with the variadic text \<^verbatim>\<open>ZMK_MACRO1 ZMK_MACRO((x), y)\<close>, the inner \<^verbatim>\<open>ZMK_MACRO\<close> expands,
  which leaves \<^verbatim>\<open>ZMK_MACRO1 (x)\<close>. Inside \<^verbatim>\<open>ZMK_MACRO\<close> this is an invocation and expands to a
  third node; inside \<^verbatim>\<open>ZMK_MACRO1\<close> it stays as written. The two expansions differ in more
  than the two tokens.
\<close>

theorem macros_differ_in_two_tokens_counterexample:
  \<open>preprocess (at_line ''3'') 200
     (invocation ''ZMK_MACRO'' [''n''] [''ZMK_MACRO1'', ''ZMK_MACRO'', ''('', ''('', ''x'', '')'', '','', ''y'', '')'']) =
     Text [''n'', '':'', ''n'', ''{'',
           ''compatible'', ''='', ''"zmk,behavior-macro"'', '';'',
           ''#'', ''binding'', ''-'', ''cells'', ''='', ''<'', ''0'', ''>'', '';'',
           ''x'', '':'', ''x'', ''{'',
           ''compatible'', ''='', ''"zmk,behavior-macro-one-param"'', '';'',
           ''#'', ''binding'', ''-'', ''cells'', ''='', ''<'', ''1'', ''>'', '';'',
           ''}'', '';'',
           '':'', ''('', ''x'', '')'', ''{'',
           ''compatible'', ''='', ''"zmk,behavior-macro"'', '';'',
           ''#'', ''binding'', ''-'', ''cells'', ''='', ''<'', ''0'', ''>'', '';'',
           ''y'', ''}'', '';'',
           ''}'', '';''] \<and>
   preprocess (at_line ''3'') 200
     (invocation ''ZMK_MACRO1'' [''n''] [''ZMK_MACRO1'', ''ZMK_MACRO'', ''('', ''('', ''x'', '')'', '','', ''y'', '')'']) =
     Text [''n'', '':'', ''n'', ''{'',
           ''compatible'', ''='', ''"zmk,behavior-macro-one-param"'', '';'',
           ''#'', ''binding'', ''-'', ''cells'', ''='', ''<'', ''1'', ''>'', '';'',
           ''ZMK_MACRO1'', ''('', ''x'', '')'', '':'', ''('', ''x'', '')'', ''{'',
           ''compatible'', ''='', ''"zmk,behavior-macro"'', '';'',
           ''#'', ''binding'', ''-'', ''cells'', ''='', ''<'', ''0'', ''>'', '';'',
           ''y'', ''}'', '';'',
           ''}'', '';''] \<and>
   preprocess (at_line ''3'') 200
     (invocation ''ZMK_MACRO1'' [''n''] [''ZMK_MACRO1'', ''ZMK_MACRO'', ''('', ''('', ''x'', '')'', '','', ''y'', '')'']) \<noteq>
     Text [''n'', '':'', ''n'', ''{'',
           ''compatible'', ''='', ''"zmk,behavior-macro-one-param"'', '';'',
           ''#'', ''binding'', ''-'', ''cells'', ''='', ''<'', ''1'', ''>'', '';'',
           ''x'', '':'', ''x'', ''{'',
           ''compatible'', ''='', ''"zmk,behavior-macro-one-param"'', '';'',
           ''#'', ''binding'', ''-'', ''cells'', ''='', ''<'', ''1'', ''>'', '';'',
           ''}'', '';'',
           '':'', ''('', ''x'', '')'', ''{'',
           ''compatible'', ''='', ''"zmk,behavior-macro"'', '';'',
           ''#'', ''binding'', ''-'', ''cells'', ''='', ''<'', ''0'', ''>'', '';'',
           ''y'', ''}'', '';'',
           ''}'', '';'']\<close>
  by code_simp

section \<open>Failure\<close>

text \<open>
  C6, as amended. Let \<open>name\<close> be one argument and \<open>va\<close> variadic text, in particular with every
  parenthesis closed; either may be empty and \<open>name\<close> need not be a valid node name. Let
  neither name a macro in force other than \<^verbatim>\<open>MACRO_PLACEHOLDER\<close>, and let \<^verbatim>\<open>compatible\<close>,
  \<^verbatim>\<open>binding\<close> and \<^verbatim>\<open>cells\<close> not be macros in force. Then the expansion of each of the three
  macros at \<open>(name, va)\<close> returns a text, with every number of steps above six times the length
  of the invocation: it neither fails nor runs on.
\<close>

theorem expansion_returns_text:
  assumes "arg_ok True 0 name" and "arg_ok False 0 va"
    and "names_only_placeholder others name" and "names_only_placeholder others va"
    and "template_words_free others"
    and "6 * (length name + length va + 4) < n"
  shows \<open>(\<exists>out. preprocess others n (invocation ''ZMK_MACRO'' name va) = Text out) \<and>
   (\<exists>out. preprocess others n (invocation ''ZMK_MACRO1'' name va) = Text out) \<and>
   (\<exists>out. preprocess others n (invocation ''ZMK_MACRO2'' name va) = Text out)\<close>
proof -
  have "\<exists>out. preprocess others n (invocation m name va) = Text out"
    if m: "m = ''ZMK_MACRO'' \<or> m = ''ZMK_MACRO1'' \<or> m = ''ZMK_MACRO2''" for m
  proof -
    have call: "zmk_invocation others (m, name, va)"
      using m assms(1-4) by (rule zmk_invocationI)
    have fuel: "6 * length (invocation m name va) < n"
      using assms(6) by (simp add: length_invocation)
    from preprocess_invocation [OF assms(5) call fuel] show ?thesis
      by blast
  qed
  then show ?thesis
    by simp
qed

text \<open>
  The theorem on line 3 of a keymap, at an empty name and the variadic text \<^verbatim>\<open>(1 + 2) ?\<close>, which
  is no devicetree source.
\<close>

theorem expansion_returns_text_witness:
  \<open>arg_ok True 0 [] \<and>
   arg_ok False 0 [''('', ''1'', ''+'', ''2'', '')'', ''?''] \<and>
   names_only_placeholder (at_line ''3'') [] \<and>
   names_only_placeholder (at_line ''3'') [''('', ''1'', ''+'', ''2'', '')'', ''?''] \<and>
   template_words_free (at_line ''3'') \<and>
   (\<exists>out. preprocess (at_line ''3'') 200
      (invocation ''ZMK_MACRO'' [] [''('', ''1'', ''+'', ''2'', '')'', ''?'']) = Text out) \<and>
   (\<exists>out. preprocess (at_line ''3'') 200
      (invocation ''ZMK_MACRO1'' [] [''('', ''1'', ''+'', ''2'', '')'', ''?'']) = Text out) \<and>
   (\<exists>out. preprocess (at_line ''3'') 200
      (invocation ''ZMK_MACRO2'' [] [''('', ''1'', ''+'', ''2'', '')'', ''?'']) = Text out)\<close>
proof -
  have name: \<open>arg_ok True 0 []\<close>
    and va: \<open>arg_ok False 0 [''('', ''1'', ''+'', ''2'', '')'', ''?'']\<close>
    by simp_all
  have only_name: \<open>names_only_placeholder (at_line ''3'') []\<close>
    by code_simp
  have only_va: \<open>names_only_placeholder (at_line ''3'') [''('', ''1'', ''+'', ''2'', '')'', ''?'']\<close>
    by code_simp
  have words: \<open>template_words_free (at_line ''3'')\<close>
    by (simp add: template_words_free_iff at_line_def)
  have fuel: \<open>6 * (length ([] :: token list) +
      length [''('', ''1'', ''+'', ''2'', '')'', ''?''] + 4) < 200\<close>
    by simp
  from expansion_returns_text [OF name va only_name only_va words fuel]
    name va only_name only_va words
  show ?thesis
    by simp
qed

text \<open>
  C6 as stated fails at malformed input: a name that opens a parenthesis and never closes it
  takes the closing parenthesis of the invocation for its own, and the argument list of
  \<^verbatim>\<open>ZMK_MACRO((, x)\<close> is unterminated. The expansion fails; it does so with every positive
  number of steps (lemma \<open>unterminated_argument_list\<close>).
\<close>

theorem expansion_returns_text_counterexample:
  \<open>preprocess (at_line ''3'') 200 (invocation ''ZMK_MACRO'' [''(''] [''x'']) =
     Failed Unterminated_argument_list\<close>
  by code_simp

section \<open>Invocations side by side\<close>

text \<open>
  C7, as amended. Take a text that is a sequence of invocations of the three macros, each with
  one argument \<open>name\<close> and variadic text \<open>va\<close> that name no macro in force other than
  \<^verbatim>\<open>MACRO_PLACEHOLDER\<close>, and let \<^verbatim>\<open>compatible\<close>, \<^verbatim>\<open>binding\<close> and \<^verbatim>\<open>cells\<close> not be macros in force.
  Then the text expands to the nodes of its invocations, one after the other, and each
  invocation expands on its own to the same node as within the sequence. That node is
  \<open>node m (placeholder_replaced name) (placeholder_replaced va)\<close>: it is determined by the macro
  and its arguments, and depends neither on the other invocations, nor on the place of the
  invocation, nor on the other macros in force.
\<close>

theorem invocations_expand_independently:
  assumes "template_words_free others"
    and "list_all (zmk_invocation others) calls"
    and "6 * length (concat (map (\<lambda>(m, name, va). invocation m name va) calls)) < n"
  shows \<open>preprocess others n (concat (map (\<lambda>(m, name, va). invocation m name va) calls)) =
     Text (concat (map (\<lambda>(m, name, va).
       node m (placeholder_replaced name) (placeholder_replaced va)) calls)) \<and>
   list_all (\<lambda>(m, name, va). preprocess others n (invocation m name va) =
     Text (node m (placeholder_replaced name) (placeholder_replaced va))) calls\<close>
proof -
  have "preprocess others n (invocation m name va) =
      Text (node m (placeholder_replaced name) (placeholder_replaced va))"
    if "(m, name, va) \<in> set calls" for m name va
  proof -
    from assms(2) that have call: "zmk_invocation others (m, name, va)"
      by (auto simp add: list_all_iff)
    have "length (invocation m name va) \<le>
        length (concat (map (\<lambda>(m, name, va). invocation m name va) calls))"
      using length_concat_member [OF that, of "\<lambda>(m, name, va). invocation m name va"] by simp
    with assms(3) have "6 * length (invocation m name va) < n"
      by simp
    with assms(1) call show ?thesis
      by (rule preprocess_invocation)
  qed
  then have "list_all (\<lambda>(m, name, va). preprocess others n (invocation m name va) =
      Text (node m (placeholder_replaced name) (placeholder_replaced va))) calls"
    by (auto simp add: list_all_iff)
  with preprocess_invocations [OF assms] show ?thesis
    by simp
qed

text \<open>
  The theorem at three invocations, the first and the last the same, once with the first on
  line 3 of a keymap and once with the first on line 8: the text is the same in both places,
  and the same for the first and the last invocation.
\<close>

theorem invocations_expand_independently_witness:
  \<open>template_words_free (at_line ''3'') \<and> template_words_free (at_line ''8'') \<and>
   list_all (zmk_invocation (at_line ''3''))
     [(''ZMK_MACRO'', [''tap_a''],
       [''bindings'', ''='', ''<'', ''&'', ''kp'', ''A'', ''>'', '';'']),
      (''ZMK_MACRO1'', [''key_of''],
       [''bindings'', ''='', ''<'', ''&'', ''kp'', ''MACRO_PLACEHOLDER'', ''>'', '';'']),
      (''ZMK_MACRO'', [''tap_a''],
       [''bindings'', ''='', ''<'', ''&'', ''kp'', ''A'', ''>'', '';''])] \<and>
   list_all (zmk_invocation (at_line ''8''))
     [(''ZMK_MACRO'', [''tap_a''],
       [''bindings'', ''='', ''<'', ''&'', ''kp'', ''A'', ''>'', '';'']),
      (''ZMK_MACRO1'', [''key_of''],
       [''bindings'', ''='', ''<'', ''&'', ''kp'', ''MACRO_PLACEHOLDER'', ''>'', '';'']),
      (''ZMK_MACRO'', [''tap_a''],
       [''bindings'', ''='', ''<'', ''&'', ''kp'', ''A'', ''>'', '';''])] \<and>
   preprocess (at_line ''3'') 400
     [''ZMK_MACRO'', ''('', ''tap_a'', '','', ''bindings'', ''='', ''<'', ''&'', ''kp'', ''A'',
      ''>'', '';'',
      '')'', ''ZMK_MACRO1'', ''('', ''key_of'', '','', ''bindings'', ''='', ''<'', ''&'',
      ''kp'', ''MACRO_PLACEHOLDER'', ''>'', '';'',
      '')'', ''ZMK_MACRO'', ''('', ''tap_a'', '','', ''bindings'', ''='', ''<'', ''&'', ''kp'',
      ''A'', ''>'', '';'',
      '')''] =
     Text ([''tap_a'', '':'', ''tap_a'', ''{'',
           ''compatible'', ''='', ''"zmk,behavior-macro"'', '';'',
           ''#'', ''binding'', ''-'', ''cells'', ''='', ''<'', ''0'', ''>'', '';'',
           ''bindings'', ''='', ''<'', ''&'', ''kp'', ''A'', ''>'', '';'',
           ''}'', '';''] @
       [''key_of'', '':'', ''key_of'', ''{'',
        ''compatible'', ''='', ''"zmk,behavior-macro-one-param"'', '';'',
        ''#'', ''binding'', ''-'', ''cells'', ''='', ''<'', ''1'', ''>'', '';'',
        ''bindings'', ''='', ''<'', ''&'', ''kp'', ''0'', ''>'', '';'',
        ''}'', '';''] @
       [''tap_a'', '':'', ''tap_a'', ''{'',
        ''compatible'', ''='', ''"zmk,behavior-macro"'', '';'',
        ''#'', ''binding'', ''-'', ''cells'', ''='', ''<'', ''0'', ''>'', '';'',
        ''bindings'', ''='', ''<'', ''&'', ''kp'', ''A'', ''>'', '';'',
        ''}'', '';'']) \<and>
   preprocess (at_line ''8'') 400
     [''ZMK_MACRO'', ''('', ''tap_a'', '','', ''bindings'', ''='', ''<'', ''&'', ''kp'', ''A'',
      ''>'', '';'',
      '')'', ''ZMK_MACRO1'', ''('', ''key_of'', '','', ''bindings'', ''='', ''<'', ''&'',
      ''kp'', ''MACRO_PLACEHOLDER'', ''>'', '';'',
      '')'', ''ZMK_MACRO'', ''('', ''tap_a'', '','', ''bindings'', ''='', ''<'', ''&'', ''kp'',
      ''A'', ''>'', '';'',
      '')''] =
     Text ([''tap_a'', '':'', ''tap_a'', ''{'',
           ''compatible'', ''='', ''"zmk,behavior-macro"'', '';'',
           ''#'', ''binding'', ''-'', ''cells'', ''='', ''<'', ''0'', ''>'', '';'',
           ''bindings'', ''='', ''<'', ''&'', ''kp'', ''A'', ''>'', '';'',
           ''}'', '';''] @
       [''key_of'', '':'', ''key_of'', ''{'',
        ''compatible'', ''='', ''"zmk,behavior-macro-one-param"'', '';'',
        ''#'', ''binding'', ''-'', ''cells'', ''='', ''<'', ''1'', ''>'', '';'',
        ''bindings'', ''='', ''<'', ''&'', ''kp'', ''0'', ''>'', '';'',
        ''}'', '';''] @
       [''tap_a'', '':'', ''tap_a'', ''{'',
        ''compatible'', ''='', ''"zmk,behavior-macro"'', '';'',
        ''#'', ''binding'', ''-'', ''cells'', ''='', ''<'', ''0'', ''>'', '';'',
        ''bindings'', ''='', ''<'', ''&'', ''kp'', ''A'', ''>'', '';'',
        ''}'', '';''])\<close>
proof -
  have words: \<open>template_words_free (at_line ''3'')\<close> \<open>template_words_free (at_line ''8'')\<close>
    by (simp_all add: template_words_free_iff at_line_def)
  have calls3: \<open>list_all (zmk_invocation (at_line ''3''))
     [(''ZMK_MACRO'', [''tap_a''],
       [''bindings'', ''='', ''<'', ''&'', ''kp'', ''A'', ''>'', '';'']),
      (''ZMK_MACRO1'', [''key_of''],
       [''bindings'', ''='', ''<'', ''&'', ''kp'', ''MACRO_PLACEHOLDER'', ''>'', '';'']),
      (''ZMK_MACRO'', [''tap_a''],
       [''bindings'', ''='', ''<'', ''&'', ''kp'', ''A'', ''>'', '';''])]\<close>
    by code_simp
  have calls8: \<open>list_all (zmk_invocation (at_line ''8''))
     [(''ZMK_MACRO'', [''tap_a''],
       [''bindings'', ''='', ''<'', ''&'', ''kp'', ''A'', ''>'', '';'']),
      (''ZMK_MACRO1'', [''key_of''],
       [''bindings'', ''='', ''<'', ''&'', ''kp'', ''MACRO_PLACEHOLDER'', ''>'', '';'']),
      (''ZMK_MACRO'', [''tap_a''],
       [''bindings'', ''='', ''<'', ''&'', ''kp'', ''A'', ''>'', '';''])]\<close>
    by code_simp
  have fuel: \<open>6 * length (concat (map (\<lambda>(m, name, va). invocation m name va)
     [(''ZMK_MACRO'', [''tap_a''],
       [''bindings'', ''='', ''<'', ''&'', ''kp'', ''A'', ''>'', '';'']),
      (''ZMK_MACRO1'', [''key_of''],
       [''bindings'', ''='', ''<'', ''&'', ''kp'', ''MACRO_PLACEHOLDER'', ''>'', '';'']),
      (''ZMK_MACRO'', [''tap_a''],
       [''bindings'', ''='', ''<'', ''&'', ''kp'', ''A'', ''>'', '';''])])) < 400\<close>
    by (simp add: invocation_def)
  from invocations_expand_independently [OF words(1) calls3 fuel]
    invocations_expand_independently [OF words(2) calls8 fuel] words calls3 calls8
  show ?thesis
    by (simp add: invocation_def placeholder_replaced_def node_ZMK_MACRO node_ZMK_MACRO1)
qed

text \<open>
  C7 as stated fails where an argument names a macro whose value depends on the place of
  the invocation: \<^verbatim>\<open>ZMK_MACRO(a, row = <__LINE__>;)\<close>, with the same name and the same variadic
  text, expands to a node with \<^verbatim>\<open>row = <3>\<close> on line 3 of a keymap and with \<^verbatim>\<open>row = <8>\<close> on
  line 8.
\<close>

theorem invocations_expand_independently_counterexample:
  \<open>preprocess (at_line ''3'') 200
     (invocation ''ZMK_MACRO'' [''a''] [''row'', ''='', ''<'', ''__LINE__'', ''>'', '';'']) =
     Text [''a'', '':'', ''a'', ''{'',
           ''compatible'', ''='', ''"zmk,behavior-macro"'', '';'',
           ''#'', ''binding'', ''-'', ''cells'', ''='', ''<'', ''0'', ''>'', '';'',
           ''row'', ''='', ''<'', ''3'', ''>'', '';'',
           ''}'', '';''] \<and>
   preprocess (at_line ''8'') 200
     (invocation ''ZMK_MACRO'' [''a''] [''row'', ''='', ''<'', ''__LINE__'', ''>'', '';'']) =
     Text [''a'', '':'', ''a'', ''{'',
           ''compatible'', ''='', ''"zmk,behavior-macro"'', '';'',
           ''#'', ''binding'', ''-'', ''cells'', ''='', ''<'', ''0'', ''>'', '';'',
           ''row'', ''='', ''<'', ''8'', ''>'', '';'',
           ''}'', '';''] \<and>
   preprocess (at_line ''3'') 200
     (invocation ''ZMK_MACRO'' [''a''] [''row'', ''='', ''<'', ''__LINE__'', ''>'', '';'']) \<noteq>
   preprocess (at_line ''8'') 200
     (invocation ''ZMK_MACRO'' [''a''] [''row'', ''='', ''<'', ''__LINE__'', ''>'', '';''])\<close>
  by code_simp

section \<open>What the header defines\<close>

text \<open>
  C8, as amended. The header defines exactly four macros: the object-like
  \<^verbatim>\<open>MACRO_PLACEHOLDER\<close>, whose replacement list is \<^verbatim>\<open>0\<close>, and the three function-like
  macros \<^verbatim>\<open>ZMK_MACRO\<close>, \<^verbatim>\<open>ZMK_MACRO1\<close> and \<^verbatim>\<open>ZMK_MACRO2\<close>, each with the one named
  parameter \<^verbatim>\<open>name\<close>. No other name is defined.
\<close>

theorem header_defines_four_macros:
  \<open>map fst zmk_defines = [''MACRO_PLACEHOLDER'', ''ZMK_MACRO'', ''ZMK_MACRO1'', ''ZMK_MACRO2''] \<and>
   dom lookup_macro = {''MACRO_PLACEHOLDER'', ''ZMK_MACRO'', ''ZMK_MACRO1'', ''ZMK_MACRO2''} \<and>
   lookup_macro ''MACRO_PLACEHOLDER'' = Some (Object_like [''0'']) \<and>
   (\<exists>body. lookup_macro ''ZMK_MACRO'' = Some (Function_like [''name''] body)) \<and>
   (\<exists>body. lookup_macro ''ZMK_MACRO1'' = Some (Function_like [''name''] body)) \<and>
   (\<exists>body. lookup_macro ''ZMK_MACRO2'' = Some (Function_like [''name''] body))\<close>
proof -
  have \<open>dom lookup_macro = fst ` set zmk_defines\<close>
    unfolding lookup_macro_def by (rule dom_map_of_conv_image_fst)
  then have \<open>dom lookup_macro = {''MACRO_PLACEHOLDER'', ''ZMK_MACRO'', ''ZMK_MACRO1'', ''ZMK_MACRO2''}\<close>
    by (simp add: zmk_defines_def)
  then show ?thesis
    by (simp add: lookup_MACRO_PLACEHOLDER lookup_ZMK_MACRO lookup_ZMK_MACRO1 lookup_ZMK_MACRO2
        MACRO_PLACEHOLDER_def ZMK_MACRO_def ZMK_MACRO1_def ZMK_MACRO2_def)
      (simp add: zmk_defines_def)
qed

text \<open>
  C8 as stated fails: the header's first directive defines a fourth macro,
  \<^verbatim>\<open>MACRO_PLACEHOLDER\<close>, which is none of the three.
\<close>

theorem only_three_macros_counterexample:
  \<open>lookup_macro ''MACRO_PLACEHOLDER'' = Some (Object_like [''0'']) \<and>
   ''MACRO_PLACEHOLDER'' \<notin> {''ZMK_MACRO'', ''ZMK_MACRO1'', ''ZMK_MACRO2''} \<and>
   length zmk_defines = 4\<close>
  by (simp add: lookup_MACRO_PLACEHOLDER MACRO_PLACEHOLDER_def zmk_defines_def)

section \<open>Header and closing of the nodes\<close>




section \<open>No variadic text\<close>

text \<open>
  C10, as amended. Let the name be an identifier \<open>t\<close> that is not a macro in force, and let
  \<^verbatim>\<open>compatible\<close>, \<^verbatim>\<open>binding\<close> and \<^verbatim>\<open>cells\<close> not be macros in force. Then each of the three macros,
  invoked with empty variadic text as \<^verbatim>\<open>m(t, )\<close> or without it as \<^verbatim>\<open>m(t)\<close>, expands to the header
  \<^verbatim>\<open>t: t {\<close>, the \<^verbatim>\<open>compatible\<close> property and the \<^verbatim>\<open>#binding-cells\<close> property of the macro, and the
  closing \<^verbatim>\<open>};\<close>, with nothing else; and this text is a node labelled with an identifier.
\<close>

theorem empty_variadic_node:
  assumes "is_identifier t" and "in_force others t = None"
    and "template_words_free others"
    and "30 < n"
  shows \<open>preprocess others n (invocation ''ZMK_MACRO'' [t] []) =
     Text [t, '':'', t, ''{'',
           ''compatible'', ''='', ''"zmk,behavior-macro"'', '';'',
           ''#'', ''binding'', ''-'', ''cells'', ''='', ''<'', ''0'', ''>'', '';'',
           ''}'', '';''] \<and>
   preprocess others n [''ZMK_MACRO'', ''('', t, '')''] =
     Text [t, '':'', t, ''{'',
           ''compatible'', ''='', ''"zmk,behavior-macro"'', '';'',
           ''#'', ''binding'', ''-'', ''cells'', ''='', ''<'', ''0'', ''>'', '';'',
           ''}'', '';''] \<and>
   labelled_node
     [t, '':'', t, ''{'',
      ''compatible'', ''='', ''"zmk,behavior-macro"'', '';'',
      ''#'', ''binding'', ''-'', ''cells'', ''='', ''<'', ''0'', ''>'', '';'',
      ''}'', '';''] \<and>
   preprocess others n (invocation ''ZMK_MACRO1'' [t] []) =
     Text [t, '':'', t, ''{'',
           ''compatible'', ''='', ''"zmk,behavior-macro-one-param"'', '';'',
           ''#'', ''binding'', ''-'', ''cells'', ''='', ''<'', ''1'', ''>'', '';'',
           ''}'', '';''] \<and>
   preprocess others n [''ZMK_MACRO1'', ''('', t, '')''] =
     Text [t, '':'', t, ''{'',
           ''compatible'', ''='', ''"zmk,behavior-macro-one-param"'', '';'',
           ''#'', ''binding'', ''-'', ''cells'', ''='', ''<'', ''1'', ''>'', '';'',
           ''}'', '';''] \<and>
   labelled_node
     [t, '':'', t, ''{'',
      ''compatible'', ''='', ''"zmk,behavior-macro-one-param"'', '';'',
      ''#'', ''binding'', ''-'', ''cells'', ''='', ''<'', ''1'', ''>'', '';'',
      ''}'', '';''] \<and>
   preprocess others n (invocation ''ZMK_MACRO2'' [t] []) =
     Text [t, '':'', t, ''{'',
           ''compatible'', ''='', ''"zmk,behavior-macro-two-param"'', '';'',
           ''#'', ''binding'', ''-'', ''cells'', ''='', ''<'', ''2'', ''>'', '';'',
           ''}'', '';''] \<and>
   preprocess others n [''ZMK_MACRO2'', ''('', t, '')''] =
     Text [t, '':'', t, ''{'',
           ''compatible'', ''='', ''"zmk,behavior-macro-two-param"'', '';'',
           ''#'', ''binding'', ''-'', ''cells'', ''='', ''<'', ''2'', ''>'', '';'',
           ''}'', '';''] \<and>
   labelled_node
     [t, '':'', t, ''{'',
      ''compatible'', ''='', ''"zmk,behavior-macro-two-param"'', '';'',
      ''#'', ''binding'', ''-'', ''cells'', ''='', ''<'', ''2'', ''>'', '';'',
      ''}'', '';'']\<close>
proof -
  from assms(2) have t: "t \<noteq> ''MACRO_PLACEHOLDER''"
    by (auto simp add: in_force_header)
  have name: "arg_ok True 0 [t]"
    using assms(1) by (rule is_identifier_arg_ok)
  have only: "names_only_placeholder others [t]"
    using assms(2) by (simp add: names_only_placeholder_def)
  have same: "placeholder_replaced [t] = [t]"
    using t by (simp add: placeholder_replaced_def)
  have empty: "placeholder_replaced [] = []"
    by (simp add: placeholder_replaced_def)
  have with_comma: "preprocess others n (invocation m [t] []) = Text (node m [t] [])"
    if m: "m = ''ZMK_MACRO'' \<or> m = ''ZMK_MACRO1'' \<or> m = ''ZMK_MACRO2''" for m
  proof -
    have "zmk_invocation others (m, [t], [])"
      using m name only by (simp add: zmk_invocation_def names_only_placeholder_def)
    moreover have "6 * length (invocation m [t] []) < n"
      using assms(4) by (simp add: length_invocation)
    ultimately show ?thesis
      using preprocess_invocation [OF assms(3), of m "[t]" "[]" n]
      by (simp add: same empty)
  qed
  have without: "preprocess others n [m, ''('', t, '')''] = Text (node m [t] [])"
    if m: "m = ''ZMK_MACRO'' \<or> m = ''ZMK_MACRO1'' \<or> m = ''ZMK_MACRO2''" for m
    using preprocess_invocation_no_variadic [OF assms(3) m name only, of n] assms(4)
    by (simp add: same)
  have labelled: "labelled_node (t # '':'' # t # ''{'' # tail)" if "closes 0 tail" for tail
    using that assms(1) by (simp add: labelled_node_def)
  show ?thesis
    by (simp add: with_comma without node_ZMK_MACRO node_ZMK_MACRO1 node_ZMK_MACRO2 labelled)
qed

text \<open>The theorem on line 3 of a keymap, at the name \<^verbatim>\<open>tap_a\<close>.\<close>

theorem empty_variadic_node_witness:
  \<open>is_identifier ''tap_a'' \<and> in_force (at_line ''3'') ''tap_a'' = None \<and>
   template_words_free (at_line ''3'') \<and>
   preprocess (at_line ''3'') 200 (invocation ''ZMK_MACRO'' [''tap_a''] []) =
     Text [''tap_a'', '':'', ''tap_a'', ''{'',
           ''compatible'', ''='', ''"zmk,behavior-macro"'', '';'',
           ''#'', ''binding'', ''-'', ''cells'', ''='', ''<'', ''0'', ''>'', '';'',
           ''}'', '';''] \<and>
   preprocess (at_line ''3'') 200 [''ZMK_MACRO'', ''('', ''tap_a'', '')''] =
     Text [''tap_a'', '':'', ''tap_a'', ''{'',
           ''compatible'', ''='', ''"zmk,behavior-macro"'', '';'',
           ''#'', ''binding'', ''-'', ''cells'', ''='', ''<'', ''0'', ''>'', '';'',
           ''}'', '';''] \<and>
   labelled_node
     [''tap_a'', '':'', ''tap_a'', ''{'',
      ''compatible'', ''='', ''"zmk,behavior-macro"'', '';'',
      ''#'', ''binding'', ''-'', ''cells'', ''='', ''<'', ''0'', ''>'', '';'',
      ''}'', '';''] \<and>
   preprocess (at_line ''3'') 200 (invocation ''ZMK_MACRO1'' [''tap_a''] []) =
     Text [''tap_a'', '':'', ''tap_a'', ''{'',
           ''compatible'', ''='', ''"zmk,behavior-macro-one-param"'', '';'',
           ''#'', ''binding'', ''-'', ''cells'', ''='', ''<'', ''1'', ''>'', '';'',
           ''}'', '';''] \<and>
   preprocess (at_line ''3'') 200 [''ZMK_MACRO1'', ''('', ''tap_a'', '')''] =
     Text [''tap_a'', '':'', ''tap_a'', ''{'',
           ''compatible'', ''='', ''"zmk,behavior-macro-one-param"'', '';'',
           ''#'', ''binding'', ''-'', ''cells'', ''='', ''<'', ''1'', ''>'', '';'',
           ''}'', '';''] \<and>
   labelled_node
     [''tap_a'', '':'', ''tap_a'', ''{'',
      ''compatible'', ''='', ''"zmk,behavior-macro-one-param"'', '';'',
      ''#'', ''binding'', ''-'', ''cells'', ''='', ''<'', ''1'', ''>'', '';'',
      ''}'', '';''] \<and>
   preprocess (at_line ''3'') 200 (invocation ''ZMK_MACRO2'' [''tap_a''] []) =
     Text [''tap_a'', '':'', ''tap_a'', ''{'',
           ''compatible'', ''='', ''"zmk,behavior-macro-two-param"'', '';'',
           ''#'', ''binding'', ''-'', ''cells'', ''='', ''<'', ''2'', ''>'', '';'',
           ''}'', '';''] \<and>
   preprocess (at_line ''3'') 200 [''ZMK_MACRO2'', ''('', ''tap_a'', '')''] =
     Text [''tap_a'', '':'', ''tap_a'', ''{'',
           ''compatible'', ''='', ''"zmk,behavior-macro-two-param"'', '';'',
           ''#'', ''binding'', ''-'', ''cells'', ''='', ''<'', ''2'', ''>'', '';'',
           ''}'', '';''] \<and>
   labelled_node
     [''tap_a'', '':'', ''tap_a'', ''{'',
      ''compatible'', ''='', ''"zmk,behavior-macro-two-param"'', '';'',
      ''#'', ''binding'', ''-'', ''cells'', ''='', ''<'', ''2'', ''>'', '';'',
      ''}'', '';'']\<close>
proof -
  have name: \<open>is_identifier ''tap_a''\<close>
    by (simp add: nondigit_def digit_def)
  have free: \<open>in_force (at_line ''3'') ''tap_a'' = None\<close>
    by (simp add: in_force_other at_line_def)
  have words: \<open>template_words_free (at_line ''3'')\<close>
    by (simp add: template_words_free_iff at_line_def)
  have fuel: \<open>(30 :: nat) < 200\<close>
    by simp
  from empty_variadic_node [OF name free words fuel] name free words show ?thesis
    by simp
qed

text \<open>
  C10 as stated fails for the name \<^verbatim>\<open>MACRO_PLACEHOLDER\<close>, which the header itself defines: on
  line 3 of a keymap, \<^verbatim>\<open>ZMK_MACRO1(MACRO_PLACEHOLDER, )\<close> expands to a text whose header is
  \<^verbatim>\<open>0: 0 {\<close>, which is neither the header \<^verbatim>\<open>name: name {\<close> nor that of a node labelled with an
  identifier.
\<close>

theorem empty_variadic_node_counterexample:
  \<open>preprocess (at_line ''3'') 200 (invocation ''ZMK_MACRO1'' [''MACRO_PLACEHOLDER''] []) =
     Text [''0'', '':'', ''0'', ''{'',
           ''compatible'', ''='', ''"zmk,behavior-macro-one-param"'', '';'',
           ''#'', ''binding'', ''-'', ''cells'', ''='', ''<'', ''1'', ''>'', '';'',
           ''}'', '';''] \<and>
   preprocess (at_line ''3'') 200 (invocation ''ZMK_MACRO1'' [''MACRO_PLACEHOLDER''] []) \<noteq>
     Text [''MACRO_PLACEHOLDER'', '':'', ''MACRO_PLACEHOLDER'', ''{'',
           ''compatible'', ''='', ''"zmk,behavior-macro-one-param"'', '';'',
           ''#'', ''binding'', ''-'', ''cells'', ''='', ''<'', ''1'', ''>'', '';'',
           ''}'', '';''] \<and>
   \<not> labelled_node
     [''0'', '':'', ''0'', ''{'',
      ''compatible'', ''='', ''"zmk,behavior-macro-one-param"'', '';'',
      ''#'', ''binding'', ''-'', ''cells'', ''='', ''<'', ''1'', ''>'', '';'',
      ''}'', '';'']\<close>
  by code_simp

end
